theory Spec2Isabelle
  imports Main "HOL-Library.Word"
begin

section \<open>Per-application traffic accounting\<close>

subsection \<open>Machine integers\<close>

text \<open>
  Go's fixed-width integers are words. A signed type is the same bit pattern read with
  \<open>sint\<close>, an unsigned one with \<open>uint\<close> or \<open>unat\<close>. A Go conversion between integer
  types keeps the low bits, which is \<open>ucast\<close>; when the source is signed and the target
  is wider it sign-extends, which is \<open>scast\<close>.
\<close>

type_synonym int32 = "32 word"
type_synonym uint32 = "32 word"
type_synonym int64 = "64 word"
type_synonym uint64 = "64 word"
type_synonym uint16 = "16 word"

subsection \<open>The two records of the counters\<close>

text \<open>The exported record \<open>AppStats\<close> handed to the listener.\<close>

record AppStats =
  Uid :: int32
  TcpConn :: int32
  UdpConn :: int32
  TcpConnTotal :: int32
  UdpConnTotal :: int32
  Uplink :: int64
  Downlink :: int64
  UplinkTotal :: int64
  DownlinkTotal :: int64
  DeactivateAt :: int32

text \<open>The internal record \<open>appStats\<close>, one object per UID, always reached by pointer.\<close>

record appStats =
  tcpConn :: int32
  udpConn :: int32
  tcpConnTotal :: uint32
  udpConnTotal :: uint32
  uplink :: uint64
  downlink :: uint64
  uplinkTotal :: uint64
  downlinkTotal :: uint64
  deactivateAt :: int64

text \<open>\<open>&appStats{}\<close>: every field is zero.\<close>

definition appStats_zero :: appStats where
  "appStats_zero =
     \<lparr>tcpConn = 0, udpConn = 0, tcpConnTotal = 0, udpConnTotal = 0,
      uplink = 0, downlink = 0, uplinkTotal = 0, downlinkTotal = 0, deactivateAt = 0\<rparr>"

subsection \<open>The store of \<open>appStats\<close> objects and the atomic operations\<close>

text \<open>
  The map of the bridge holds pointers, and the wrappers of a flow hold pointers to two
  fields of the same object, so the objects live in a store. A pointer to a 64-bit field
  is the address of the object and the name of the field.
\<close>

type_synonym ref = nat
type_synonym heap = "ref \<Rightarrow> appStats"

datatype u64field = F_uplink | F_downlink | F_uplinkTotal | F_downlinkTotal

type_synonym u64ptr = "ref \<times> u64field"

fun get64 :: "appStats \<Rightarrow> u64field \<Rightarrow> uint64" where
  "get64 s F_uplink = uplink s"
| "get64 s F_downlink = downlink s"
| "get64 s F_uplinkTotal = uplinkTotal s"
| "get64 s F_downlinkTotal = downlinkTotal s"

fun set64 :: "appStats \<Rightarrow> u64field \<Rightarrow> uint64 \<Rightarrow> appStats" where
  "set64 s F_uplink v = s\<lparr>uplink := v\<rparr>"
| "set64 s F_downlink v = s\<lparr>downlink := v\<rparr>"
| "set64 s F_uplinkTotal v = s\<lparr>uplinkTotal := v\<rparr>"
| "set64 s F_downlinkTotal v = s\<lparr>downlinkTotal := v\<rparr>"

definition atomic_LoadUint64 :: "heap \<Rightarrow> u64ptr \<Rightarrow> uint64" where
  "atomic_LoadUint64 h p = get64 (h (fst p)) (snd p)"

definition atomic_StoreUint64 :: "heap \<Rightarrow> u64ptr \<Rightarrow> uint64 \<Rightarrow> heap" where
  "atomic_StoreUint64 h p v = h(fst p := set64 (h (fst p)) (snd p) v)"

text \<open>\<open>atomic.SwapUint64\<close> stores the new value and returns the old one.\<close>

definition atomic_SwapUint64 :: "heap \<Rightarrow> u64ptr \<Rightarrow> uint64 \<Rightarrow> uint64 \<times> heap" where
  "atomic_SwapUint64 h p v = (atomic_LoadUint64 h p, atomic_StoreUint64 h p v)"

text \<open>\<open>atomic.AddUint64\<close> adds with wrap-around and returns the new value.\<close>

definition atomic_AddUint64 :: "heap \<Rightarrow> u64ptr \<Rightarrow> uint64 \<Rightarrow> uint64 \<times> heap" where
  "atomic_AddUint64 h p delta =
     (let new = atomic_LoadUint64 h p + delta in (new, atomic_StoreUint64 h p new))"

subsection \<open>\<open>statsConn\<close> and \<open>statsPacketConn\<close>\<close>

text \<open>
  An \<open>error\<close> is nil (\<open>None\<close>) or a message. The wrapped connection is outside the model:
  what its method returned is an argument of the wrapper's method. \<open>n\<close> is a Go \<open>int\<close>,
  and \<open>uint64(n)\<close> keeps its value modulo \<open>2 ^ 64\<close> whatever the width of \<open>int\<close>.
\<close>

type_synonym error = "string option"
type_synonym conn = nat

text \<open>A \<open>net.Addr\<close> is a \<open>*net.UDPAddr\<close> or a value of another type; nil is \<open>None\<close>.\<close>

datatype addr = UDPAddr string | OtherAddr string

datatype statsConn = statsConn (sc_Conn: conn) (sc_uplink: u64ptr) (sc_downlink: u64ptr)

datatype statsPacketConn =
  statsPacketConn (spc_packetConn: conn) (spc_uplink: u64ptr) (spc_downlink: u64ptr)

text \<open>
  \<open>Read\<close> and \<open>Write\<close> defer the add after the inner call: the argument \<open>uint64(n)\<close> is
  evaluated at the \<open>defer\<close> statement, with \<open>n\<close> already set, and the add runs at the
  return whatever \<open>err\<close> is.
\<close>

definition statsConn_Read :: "statsConn \<Rightarrow> int \<times> error \<Rightarrow> heap \<Rightarrow> (int \<times> error) \<times> heap" where
  "statsConn_Read c inner h =
     (let (n, err) = inner;
          (_, h') = atomic_AddUint64 h (sc_uplink c) (word_of_int n)
      in ((n, err), h'))"

definition statsConn_Write :: "statsConn \<Rightarrow> int \<times> error \<Rightarrow> heap \<Rightarrow> (int \<times> error) \<times> heap" where
  "statsConn_Write c inner h =
     (let (n, err) = inner;
          (_, h') = atomic_AddUint64 h (sc_downlink c) (word_of_int n)
      in ((n, err), h'))"

definition statsPacketConn_ReadFrom :: "statsPacketConn \<Rightarrow> int \<times> addr option \<times> error \<Rightarrow> heap
    \<Rightarrow> (int \<times> addr option \<times> error) \<times> heap" where
  "statsPacketConn_ReadFrom c inner h =
     (let (n, a, err) = inner
      in if err = None
         then ((n, a, err), snd (atomic_AddUint64 h (spc_downlink c) (word_of_int n)))
         else ((n, a, err), h))"

definition statsPacketConn_readFrom :: "statsPacketConn \<Rightarrow> 8 word list \<times> addr option \<times> error
    \<Rightarrow> heap \<Rightarrow> (8 word list \<times> addr option \<times> error) \<times> heap" where
  "statsPacketConn_readFrom c inner h =
     (let (p, a, err) = inner
      in if err = None
         then ((p, a, err), snd (atomic_AddUint64 h (spc_downlink c) (of_nat (length p))))
         else ((p, a, err), h))"

definition statsPacketConn_WriteTo :: "statsPacketConn \<Rightarrow> int \<times> error \<Rightarrow> heap
    \<Rightarrow> (int \<times> error) \<times> heap" where
  "statsPacketConn_WriteTo c inner h =
     (let (n, err) = inner
      in if err = None
         then ((n, err), snd (atomic_AddUint64 h (spc_uplink c) (word_of_int n)))
         else ((n, err), h))"

subsection \<open>The NAT table\<close>

text \<open>
  \<open>natTable\<close> wraps a \<open>sync.Map\<close> from strings to values that are either a packet
  connection (plain, or wrapped for accounting) or a condition variable, named here by a
  number. Each method is one atomic operation of the map. A type assertion on a value of
  the other kind panics.
\<close>

datatype packetConn = PlainPacketConn conn | StatsPacketConn statsPacketConn

datatype item = Item_PacketConn packetConn | Item_Cond nat

type_synonym natTable = "string \<rightharpoonup> item"

datatype panic = Panic

definition natTable_Set :: "natTable \<Rightarrow> string \<Rightarrow> packetConn \<Rightarrow> natTable" where
  "natTable_Set tbl key pc = tbl(key \<mapsto> Item_PacketConn pc)"

definition natTable_Get :: "natTable \<Rightarrow> string \<Rightarrow> panic + packetConn option" where
  "natTable_Get tbl key =
     (case tbl key of
        None \<Rightarrow> Inr None
      | Some (Item_PacketConn pc) \<Rightarrow> Inr (Some pc)
      | Some (Item_Cond c) \<Rightarrow> Inl Panic)"

text \<open>
  \<open>GetOrCreateLock\<close>: \<open>LoadOrStore\<close> with a new condition variable \<open>new\<close>. The result
  is the condition variable now in the map and \<open>loaded\<close>, with the map.
\<close>

definition natTable_GetOrCreateLock :: "natTable \<Rightarrow> string \<Rightarrow> nat
    \<Rightarrow> panic + ((nat \<times> bool) \<times> natTable)" where
  "natTable_GetOrCreateLock tbl key new =
     (case tbl key of
        None \<Rightarrow> Inr ((new, False), tbl(key \<mapsto> Item_Cond new))
      | Some (Item_Cond c) \<Rightarrow> Inr ((c, True), tbl)
      | Some (Item_PacketConn pc) \<Rightarrow> Inl Panic)"

definition natTable_Delete :: "natTable \<Rightarrow> string \<Rightarrow> natTable" where
  "natTable_Delete tbl key = tbl(key := None)"

subsection \<open>The bridge\<close>

text \<open>
  The fields of \<open>Tun2ray\<close> that the handlers and the registry read. The lock, the device
  and the proxy instance are outside the model. \<open>NewTun2ray\<close> makes the map of the
  statistics when \<open>trafficStats\<close> is set; a nil map has no entry, as the empty map.
\<close>

record Tun2ray =
  router :: string
  udpTable :: natTable
  fakedns :: bool
  sniffing :: bool
  overrideDestination :: bool
  debug :: bool
  dumpUid :: bool
  trafficStats :: bool
  appStats :: "uint16 \<rightharpoonup> ref"

subsection \<open>\<open>ResetAppTraffics\<close>\<close>

text \<open>
  The \<open>range\<close> loop visits the keys of the map in an order that Go leaves open: the order
  \<open>ks\<close> is an argument. The body stores zero in the four byte counters of the object and
  appends the UID to \<open>toDel\<close> when the 32-bit sum of the two live counts is zero.
\<close>

definition reset_body :: "ref \<Rightarrow> heap \<Rightarrow> heap" where
  "reset_body r h =
     (let h1 = atomic_StoreUint64 h (r, F_uplink) 0;
          h2 = atomic_StoreUint64 h1 (r, F_downlink) 0;
          h3 = atomic_StoreUint64 h2 (r, F_uplinkTotal) 0;
          h4 = atomic_StoreUint64 h3 (r, F_downlinkTotal) 0
      in h4)"

fun reset_range :: "(uint16 \<rightharpoonup> ref) \<Rightarrow> uint16 list \<Rightarrow> heap \<Rightarrow> uint16 list
    \<Rightarrow> uint16 list \<times> heap" where
  "reset_range m [] h toDel = (toDel, h)"
| "reset_range m (uid # ks) h toDel =
     (case m uid of
        None \<Rightarrow> reset_range m ks h toDel
      | Some r \<Rightarrow>
          (let h' = reset_body r h;
               stat = h' r
           in reset_range m ks h'
                (if tcpConn stat + udpConn stat = 0 then toDel @ [uid] else toDel)))"

definition delete_all :: "uint16 list \<Rightarrow> (uint16 \<rightharpoonup> ref) \<Rightarrow> (uint16 \<rightharpoonup> ref)" where
  "delete_all toDel m = fold (\<lambda>uid m. m(uid := None)) toDel m"

definition ResetAppTraffics :: "Tun2ray \<Rightarrow> uint16 list \<Rightarrow> heap \<Rightarrow> Tun2ray \<times> heap" where
  "ResetAppTraffics t ks h =
     (if \<not> trafficStats t then (t, h)
      else
        (let (toDel, h') = reset_range (appStats t) ks h []
         in if length toDel > 0
            then (t\<lparr>appStats := delete_all toDel (appStats t)\<rparr>, h')
            else (t, h')))"

subsection \<open>\<open>ReadAppTraffics\<close>\<close>

text \<open>
  The body of the loop: the export is built from the live counts, the totals and
  \<open>deactivateAt\<close>, each converted to 32 bits; then each window counter is swapped with
  zero and added to its total, and the export takes the swapped value and the value that
  the add returned.
\<close>

definition read_body :: "uint16 \<Rightarrow> ref \<Rightarrow> heap \<Rightarrow> AppStats \<times> heap" where
  "read_body uid r h =
     (let stat = h r;
          export = \<lparr>Uid = ucast uid,
                    TcpConn = tcpConn stat,
                    UdpConn = udpConn stat,
                    TcpConnTotal = ucast (tcpConnTotal stat),
                    UdpConnTotal = ucast (udpConnTotal stat),
                    Uplink = 0, Downlink = 0, UplinkTotal = 0, DownlinkTotal = 0,
                    DeactivateAt = ucast (deactivateAt stat)\<rparr>;
          (up, h1) = atomic_SwapUint64 h (r, F_uplink) 0;
          (upTotal, h2) = atomic_AddUint64 h1 (r, F_uplinkTotal) up;
          export = export\<lparr>Uplink := ucast up, UplinkTotal := ucast upTotal\<rparr>;
          (down, h3) = atomic_SwapUint64 h2 (r, F_downlink) 0;
          (downTotal, h4) = atomic_AddUint64 h3 (r, F_downlinkTotal) down;
          export = export\<lparr>Downlink := ucast down, DownlinkTotal := ucast downTotal\<rparr>
      in (export, h4))"

fun read_range :: "(uint16 \<rightharpoonup> ref) \<Rightarrow> uint16 list \<Rightarrow> heap \<Rightarrow> AppStats list
    \<Rightarrow> AppStats list \<times> heap" where
  "read_range m [] h stats = (stats, h)"
| "read_range m (uid # ks) h stats =
     (case m uid of
        None \<Rightarrow> read_range m ks h stats
      | Some r \<Rightarrow>
          (let (export, h') = read_body uid r h
           in read_range m ks h' (stats @ [export])))"

text \<open>
  The result is the bridge after the call, the records passed to
  \<open>listener.UpdateStats\<close> in the order of the calls, and the store. The Go function
  returns a nil error on every path.
\<close>

definition ReadAppTraffics :: "Tun2ray \<Rightarrow> uint16 list \<Rightarrow> heap
    \<Rightarrow> Tun2ray \<times> AppStats list \<times> heap" where
  "ReadAppTraffics t ks h =
     (if \<not> trafficStats t then (t, [], h)
      else
        (let (stats, h') = read_range (appStats t) ks h []
         in (t, stats, h')))"

text \<open>
  Helpers for the statements. \<open>flushed\<close> is the object after one run of the body of
  \<open>ReadAppTraffics\<close> (proved below), and \<open>reported\<close> is the record of a UID among the
  delivered ones.
\<close>

definition flushed :: "appStats \<Rightarrow> appStats" where
  "flushed s = s\<lparr>uplink := 0, downlink := 0,
                 uplinkTotal := uplinkTotal s + uplink s,
                 downlinkTotal := downlinkTotal s + downlink s\<rparr>"

definition reported :: "AppStats list \<Rightarrow> uint16 \<Rightarrow> AppStats option" where
  "reported stats uid = find (\<lambda>e. Uid e = ucast uid) stats"

text \<open>\<open>zeroed\<close> is the object after the four stores of \<open>ResetAppTraffics\<close>.\<close>

definition zeroed :: "appStats \<Rightarrow> appStats" where
  "zeroed s = s\<lparr>uplink := 0, downlink := 0, uplinkTotal := 0, downlinkTotal := 0\<rparr>"

text \<open>
  The test of the loop of \<open>ResetAppTraffics\<close> on the entry of a UID, and the fields of
  an object that are not byte counters.
\<close>

definition idle_in :: "(uint16 \<rightharpoonup> ref) \<Rightarrow> heap \<Rightarrow> uint16 \<Rightarrow> bool" where
  "idle_in m h uid = (case m uid of None \<Rightarrow> False | Some r \<Rightarrow> tcpConn (h r) + udpConn (h r) = 0)"

definition other_fields :: "appStats \<Rightarrow> int32 \<times> int32 \<times> uint32 \<times> uint32 \<times> int64" where
  "other_fields s = (tcpConn s, udpConn s, tcpConnTotal s, udpConnTotal s, deactivateAt s)"

subsection \<open>Sequences of registry operations\<close>

text \<open>
  The operations that touch the byte counters, as a sequence: a method of a wrapper with
  what the wrapped connection returned, a snapshot, or a reset, the last two with the
  order of their \<open>range\<close> loop.
\<close>

datatype registry_op =
    Op_Read statsConn int error
  | Op_Write statsConn int error
  | Op_ReadFrom statsPacketConn int "addr option" error
  | Op_readFrom statsPacketConn "8 word list" "addr option" error
  | Op_WriteTo statsPacketConn int error
  | Op_ReadAppTraffics "uint16 list"
  | Op_ResetAppTraffics "uint16 list"

fun apply_op :: "registry_op \<Rightarrow> Tun2ray \<times> heap \<Rightarrow> Tun2ray \<times> heap" where
  "apply_op (Op_Read c n err) (t, h) = (t, snd (statsConn_Read c (n, err) h))"
| "apply_op (Op_Write c n err) (t, h) = (t, snd (statsConn_Write c (n, err) h))"
| "apply_op (Op_ReadFrom c n a err) (t, h) = (t, snd (statsPacketConn_ReadFrom c (n, a, err) h))"
| "apply_op (Op_readFrom c p a err) (t, h) = (t, snd (statsPacketConn_readFrom c (p, a, err) h))"
| "apply_op (Op_WriteTo c n err) (t, h) = (t, snd (statsPacketConn_WriteTo c (n, err) h))"
| "apply_op (Op_ReadAppTraffics ks) (t, h) =
     (case ReadAppTraffics t ks h of (t', stats, h') \<Rightarrow> (t', h'))"
| "apply_op (Op_ResetAppTraffics ks) (t, h) = ResetAppTraffics t ks h"

fun run_ops :: "registry_op list \<Rightarrow> Tun2ray \<times> heap \<Rightarrow> Tun2ray \<times> heap" where
  "run_ops [] s = s"
| "run_ops (x # xs) s = run_ops xs (apply_op x s)"

text \<open>
  A sequence without a reset, whose wrappers point at the two window counters of an
  object, as \<open>NewConnection\<close> and \<open>NewPacket\<close> build them, and in which the object \<open>r\<close>
  has room in both totals for its window at each snapshot.
\<close>

definition total_fits :: "appStats \<Rightarrow> bool" where
  "total_fits s \<longleftrightarrow> unat (uplinkTotal s) + unat (uplink s) < 2 ^ 64
                 \<and> unat (downlinkTotal s) + unat (downlink s) < 2 ^ 64"

definition window_ptrs :: "u64ptr \<Rightarrow> u64ptr \<Rightarrow> bool" where
  "window_ptrs up down \<longleftrightarrow> snd up = F_uplink \<and> snd down = F_downlink"

fun op_ok :: "ref \<Rightarrow> registry_op \<Rightarrow> Tun2ray \<times> heap \<Rightarrow> bool" where
  "op_ok r (Op_Read c n err) s = window_ptrs (sc_uplink c) (sc_downlink c)"
| "op_ok r (Op_Write c n err) s = window_ptrs (sc_uplink c) (sc_downlink c)"
| "op_ok r (Op_ReadFrom c n a err) s = window_ptrs (spc_uplink c) (spc_downlink c)"
| "op_ok r (Op_readFrom c p a err) s = window_ptrs (spc_uplink c) (spc_downlink c)"
| "op_ok r (Op_WriteTo c n err) s = window_ptrs (spc_uplink c) (spc_downlink c)"
| "op_ok r (Op_ReadAppTraffics ks) s = total_fits (snd s r)"
| "op_ok r (Op_ResetAppTraffics ks) s = False"

fun ops_ok :: "ref \<Rightarrow> registry_op list \<Rightarrow> Tun2ray \<times> heap \<Rightarrow> bool" where
  "ops_ok r [] s = True"
| "ops_ok r (x # xs) s = (op_ok r x s \<and> ops_ok r xs (apply_op x s))"

subsection \<open>Example states\<close>

text \<open>
  A bridge with traffic statistics on and one entry, UID 10042 at address 0. In
  \<open>h_busy\<close> the entry has one live TCP flow, 4096 and 2048 bytes in its windows and
  10000 and 20000 bytes in its totals; in \<open>h_idle\<close> it has no live flow.
\<close>

definition t_one :: Tun2ray where
  "t_one = \<lparr>router = ''1.2.3.4'', udpTable = Map.empty, fakedns = False, sniffing = False,
            overrideDestination = False, debug = False, dumpUid = False,
            trafficStats = True, appStats = [10042 \<mapsto> 0]\<rparr>"

definition h_busy :: heap where
  "h_busy = (\<lambda>r. appStats_zero)
     (0 := \<lparr>tcpConn = 1, udpConn = 0, tcpConnTotal = 1, udpConnTotal = 0,
            uplink = 4096, downlink = 2048, uplinkTotal = 10000, downlinkTotal = 20000,
            deactivateAt = 0\<rparr>)"

definition h_idle :: heap where
  "h_idle = (\<lambda>r. appStats_zero)
     (0 := \<lparr>tcpConn = 0, udpConn = 0, tcpConnTotal = 1, udpConnTotal = 0,
            uplink = 4096, downlink = 2048, uplinkTotal = 10000, downlinkTotal = 20000,
            deactivateAt = 1700000000\<rparr>)"

text \<open>
  \<open>h_late\<close>: the entry was deactivated at second \<open>2 ^ 31\<close> and has counted three
  billion TCP connections. \<open>c_one\<close> and \<open>pc_one\<close> are the wrappers of a TCP and of a UDP
  flow of the entry.
\<close>

definition h_late :: heap where
  "h_late = (\<lambda>r. appStats_zero)
     (0 := \<lparr>tcpConn = 0, udpConn = 0, tcpConnTotal = 3000000000, udpConnTotal = 5,
            uplink = 0, downlink = 0, uplinkTotal = 0, downlinkTotal = 0,
            deactivateAt = 2147483648\<rparr>)"

text \<open>\<open>h_full\<close>: the total uplink of the entry is at \<open>2 ^ 64 - 1\<close> and its window holds a byte.\<close>

definition h_full :: heap where
  "h_full = (\<lambda>r. appStats_zero)
     (0 := \<lparr>tcpConn = 1, udpConn = 0, tcpConnTotal = 1, udpConnTotal = 0,
            uplink = 1, downlink = 0, uplinkTotal = 18446744073709551615, downlinkTotal = 0,
            deactivateAt = 0\<rparr>)"

definition c_one :: statsConn where
  "c_one = statsConn 7 (0, F_uplink) (0, F_downlink)"

definition pc_one :: statsPacketConn where
  "pc_one = statsPacketConn 8 (0, F_uplink) (0, F_downlink)"

section \<open>The flow handlers\<close>

subsection \<open>What the handlers receive and what they hand to the proxy\<close>

text \<open>
  A \<open>Destination\<close> of the proxy library, as far as the handlers read it: the text of the
  address (\<open>Address.String()\<close>), its family (\<open>Address.Family().IsIPv6()\<close>), the port and
  the text of the endpoint (\<open>NetAddr()\<close>).
\<close>

record Destination =
  Address_String :: string
  Address_IsIPv6 :: bool
  Port :: uint16
  NetAddr :: string

text \<open>\<open>session.Inbound\<close>, \<open>session.SniffingRequest\<close> and the context given to the proxy.\<close>

record Inbound =
  Source :: Destination
  Tag :: string
  Inbound_Uid :: uint32
  AppStatus :: "string list"

record SniffingRequest =
  Enabled :: bool
  MetadataOnly :: bool
  RouteOnly :: bool
  OverrideDestinationForProtocol :: "string list"

text \<open>\<open>ctx_Content\<close> is \<open>None\<close> when no \<open>session.Content\<close> was attached.\<close>

record Context =
  ctx_Inbound :: Inbound
  ctx_Content :: "SniffingRequest option"

definition appStatusForeground :: string where
  "appStatusForeground = ''foreground''"

definition appStatusBackground :: string where
  "appStatusBackground = ''background''"

text \<open>
  The stream connection of a TCP flow, plain or wrapped, and the values that the handlers
  close.
\<close>

datatype streamConn = PlainConn conn | StatsConn statsConn

datatype closable =
    C_streamConn streamConn
  | C_pipeReader
  | C_connWriter streamConn
  | C_packetConn packetConn
  | C_closer

text \<open>
  What a handler does outside the bridge, in order: a log line (the format, and for an
  error its text), a call of the proxy, a close, a datagram written upstream or written
  back to the device, a broadcast on a condition variable.
\<close>

datatype event =
    Infof string
  | Errorf string string
  | is_DispatchLink: DispatchLink Context Destination streamConn
  | is_DialUDP: DialUDP Context Destination
  | Closed closable
  | WriteTo packetConn "8 word list" Destination
  | WriteBack "8 word list" "addr option"
  | Broadcast nat

text \<open>
  The results of the calls that leave the bridge: the UID resolver, the process UID, the
  clock, and the two foreground UIDs, which are package variables set by the embedder.
\<close>

record env =
  DumpUid_result :: "int32 \<times> error"
  GetUidInfo_result :: "(string \<times> string) option"
  Getuid :: int
  foregroundUid :: uint16
  foregroundImeUid :: uint16
  now_Unix :: int64

text \<open>
  The state shared by the handlers: the bridge, the store of the \<open>appStats\<close> objects with
  the next free address, and the number of the next condition variable.
\<close>

record world =
  bridge :: Tun2ray
  objects :: heap
  fresh :: ref
  fresh_cond :: nat

text \<open>
  Modelled from the spec: the helper \<open>closeIgnore\<close>, which is defined in another file of
  the package. The spec says that closes are idempotent and swallow errors:
  \<open>closeIgnore\<close> closes each of its arguments in turn and returns nothing.
\<close>

definition closeIgnore :: "closable list \<Rightarrow> event list" where
  "closeIgnore cs = map Closed cs"

subsection \<open>The steps common to both handlers\<close>

text \<open>
  The UID block. \<open>threshold\<close> is the least UID that is logged in debug mode (10000 in
  \<open>NewConnection\<close>, 1000 in \<open>NewPacket\<close>) and \<open>fmts\<close> the two formats of the line. The
  result is \<open>uid\<close>, \<open>self\<close>, the inbound and the log lines.
\<close>

definition resolve_uid :: "Tun2ray \<Rightarrow> env \<Rightarrow> uint16 \<Rightarrow> string \<times> string \<Rightarrow> Inbound
    \<Rightarrow> uint16 \<times> bool \<times> Inbound \<times> event list" where
  "resolve_uid t e threshold fmts inbound =
     (if dumpUid t \<or> trafficStats t then
        (let (u, err) = DumpUid_result e
         in if err = None then
              (let uid = (ucast u :: uint16);
                   self = (0 < uid \<and> uint uid = Getuid e);
                   lines = (if debug t \<and> \<not> self \<and> threshold \<le> uid
                            then (if GetUidInfo_result e = None then [Infof (fst fmts)]
                                  else [Infof (snd fmts)])
                            else []);
                   uid = (if uid < 10000 then 1000 else uid);
                   inbound = inbound\<lparr>Inbound_Uid := ucast uid\<rparr>;
                   inbound = (if uid = foregroundUid e \<or> uid = foregroundImeUid e
                              then inbound\<lparr>AppStatus := AppStatus inbound @ [appStatusForeground]\<rparr>
                              else inbound\<lparr>AppStatus := AppStatus inbound @ [appStatusBackground]\<rparr>)
               in (uid, self, inbound, lines))
            else (0, False, inbound, []))
      else (0, False, inbound, []))"

text \<open>
  The sniffing block: the content attached to the context, if any. \<open>protocols\<close> is what
  the handler appends when \<open>sniffing\<close> is set (\<open>http\<close> and \<open>tls\<close>, or \<open>quic\<close>).
\<close>

definition sniffing_content :: "Tun2ray \<Rightarrow> bool \<Rightarrow> string list \<Rightarrow> SniffingRequest option" where
  "sniffing_content t isDns protocols =
     (if \<not> isDns \<and> (sniffing t \<or> fakedns t) then
        Some \<lparr>Enabled = True,
              MetadataOnly = (fakedns t \<and> \<not> sniffing t),
              RouteOnly = (\<not> overrideDestination t),
              OverrideDestinationForProtocol =
                (if fakedns t then [''fakedns''] else []) @ (if sniffing t then protocols else [])\<rparr>
      else None)"

text \<open>
  The lookup of the entry of a UID, with the second lookup under the write lock and the
  creation of the object when there is none.
\<close>

definition attach :: "world \<Rightarrow> uint16 \<Rightarrow> ref \<times> world" where
  "attach w uid =
     (case appStats (bridge w) uid of
        Some stats \<Rightarrow> (stats, w)
      | None \<Rightarrow>
          (let stats = fresh w
           in (stats,
               w\<lparr>bridge := (bridge w)\<lparr>appStats := (appStats (bridge w))(uid \<mapsto> stats)\<rparr>,
                 objects := (objects w)(stats := appStats_zero),
                 fresh := Suc stats\<rparr>)))"

text \<open>The three atomic operations after the lookup, and the deferred function.\<close>

definition enter_tcp :: "ref \<Rightarrow> heap \<Rightarrow> heap" where
  "enter_tcp r h =
     (let h1 = h(r := (h r)\<lparr>tcpConn := tcpConn (h r) + 1\<rparr>);
          h2 = h1(r := (h1 r)\<lparr>tcpConnTotal := tcpConnTotal (h1 r) + 1\<rparr>);
          h3 = h2(r := (h2 r)\<lparr>deactivateAt := 0\<rparr>)
      in h3)"

definition leave_tcp :: "ref \<Rightarrow> int64 \<Rightarrow> heap \<Rightarrow> heap" where
  "leave_tcp r now h =
     (let h1 = h(r := (h r)\<lparr>tcpConn := tcpConn (h r) - 1\<rparr>)
      in if tcpConn (h1 r) + udpConn (h1 r) = 0
         then h1(r := (h1 r)\<lparr>deactivateAt := now\<rparr>)
         else h1)"

definition enter_udp :: "ref \<Rightarrow> heap \<Rightarrow> heap" where
  "enter_udp r h =
     (let h1 = h(r := (h r)\<lparr>udpConn := udpConn (h r) + 1\<rparr>);
          h2 = h1(r := (h1 r)\<lparr>udpConnTotal := udpConnTotal (h1 r) + 1\<rparr>);
          h3 = h2(r := (h2 r)\<lparr>deactivateAt := 0\<rparr>)
      in h3)"

definition leave_udp :: "ref \<Rightarrow> int64 \<Rightarrow> heap \<Rightarrow> heap" where
  "leave_udp r now h =
     (let h1 = h(r := (h r)\<lparr>udpConn := udpConn (h r) - 1\<rparr>)
      in if udpConn (h1 r) + tcpConn (h1 r) = 0
         then h1(r := (h1 r)\<lparr>deactivateAt := now\<rparr>)
         else h1)"

subsection \<open>\<open>NewConnection\<close>\<close>

text \<open>
  What happens on the connection while the flow lives: the reads of \<open>buf.Copy\<close> and the
  writes of the proxy through the writer of the link, each with what the inbound
  connection returned.
\<close>

datatype conn_io = IO_Read int error | IO_Write int error

fun streamConn_io :: "streamConn \<Rightarrow> conn_io \<Rightarrow> heap \<Rightarrow> heap" where
  "streamConn_io (PlainConn c) x h = h"
| "streamConn_io (StatsConn c) (IO_Read n err) h = snd (statsConn_Read c (n, err) h)"
| "streamConn_io (StatsConn c) (IO_Write n err) h = snd (statsConn_Write c (n, err) h)"

text \<open>
  \<open>dispatch_err\<close> is what \<open>DispatchLink\<close> returns and \<open>io\<close> the traffic of the flow when
  it was accepted. The result is the events of the call and the state after it.
\<close>

definition NewConnection :: "world \<Rightarrow> env \<Rightarrow> Destination \<Rightarrow> Destination \<Rightarrow> conn
    \<Rightarrow> error \<Rightarrow> conn_io list \<Rightarrow> event list \<times> world" where
  "NewConnection w e source destination conn dispatch_err io =
     (let t = bridge w;
          inbound = \<lparr>Source = source, Tag = ''socks'', Inbound_Uid = 0, AppStatus = []\<rparr>;
          isDns = (Address_String destination = router t);
          inbound = (if isDns then inbound\<lparr>Tag := ''dns-in''\<rparr> else inbound);
          (uid, self, inbound, lines) =
             resolve_uid t e 10000
               (''[TCP] %s ==> %s'', ''[TCP][%s (%d/%s)] %s ==> %s'') inbound;
          ctx = \<lparr>ctx_Inbound = inbound,
                 ctx_Content = sniffing_content t isDns [''http'', ''tls'']\<rparr>;
          (stats, conn', w1) =
             (if trafficStats t \<and> \<not> self \<and> \<not> isDns then
                (let (stats, w') = attach w uid
                 in (Some stats,
                     StatsConn (statsConn conn (stats, F_uplink) (stats, F_downlink)),
                     w'\<lparr>objects := enter_tcp stats (objects w')\<rparr>))
              else (None, PlainConn conn, w));
          (w2, failed) =
             (case dispatch_err of
                Some msg \<Rightarrow> (w1, [Errorf ''[TCP] dispatchLink failed: %s'' msg])
              | None \<Rightarrow> (w1\<lparr>objects := fold (streamConn_io conn') io (objects w1)\<rparr>, []));
          closes = closeIgnore [C_streamConn conn', C_pipeReader, C_connWriter conn'];
          w3 = (case stats of
                  None \<Rightarrow> w2
                | Some r \<Rightarrow> w2\<lparr>objects := leave_tcp r (now_Unix e) (objects w2)\<rparr>)
      in (lines @ [DispatchLink ctx destination conn'] @ failed @ closes, w3))"

subsection \<open>\<open>NewPacket\<close>\<close>

fun packetConn_WriteTo :: "packetConn \<Rightarrow> int \<times> error \<Rightarrow> heap \<Rightarrow> (int \<times> error) \<times> heap" where
  "packetConn_WriteTo (PlainPacketConn c) inner h = (inner, h)"
| "packetConn_WriteTo (StatsPacketConn c) inner h = statsPacketConn_WriteTo c inner h"

fun packetConn_readFrom :: "packetConn \<Rightarrow> 8 word list \<times> addr option \<times> error \<Rightarrow> heap
    \<Rightarrow> (8 word list \<times> addr option \<times> error) \<times> heap" where
  "packetConn_readFrom (PlainPacketConn c) inner h = (inner, h)"
| "packetConn_readFrom (StatsPacketConn c) inner h = statsPacketConn_readFrom c inner h"

text \<open>
  The closure \<open>sendTo\<close>: look the connection of the source endpoint up, write the
  datagram to it, close it when the write fails. \<open>wr\<close> is what the write of the
  upstream connection returns.
\<close>

definition sendTo :: "world \<Rightarrow> string \<Rightarrow> 8 word list \<Rightarrow> Destination \<Rightarrow> int \<times> error
    \<Rightarrow> panic + (bool \<times> event list \<times> world)" where
  "sendTo w natKey data destination wr =
     (case natTable_Get (udpTable (bridge w)) natKey of
        Inl p \<Rightarrow> Inl p
      | Inr None \<Rightarrow> Inr (False, [], w)
      | Inr (Some conn) \<Rightarrow>
          (let ((n, err), h) = packetConn_WriteTo conn wr (objects w)
           in Inr (True,
                   WriteTo conn data destination
                     # (if err \<noteq> None then [Closed (C_packetConn conn)] else []),
                   w\<lparr>objects := h\<rparr>)))"

text \<open>
  The handler stops at three places where it waits for something outside itself: the
  wait on the condition variable, the dial, and the read of the loop. \<open>Returned\<close> is
  a return of the handler.
\<close>

record dialing =
  d_isDns :: bool
  d_uid :: uint16
  d_self :: bool

datatype status = Returned | Panicked | Waiting nat | is_Dialing: Dialing dialing | Reading

text \<open>
  From the entry of \<open>NewPacket\<close> to the call of \<open>dialUDP\<close>: the fast path, the lock, and
  for the caller that stored the lock its deletion, the broadcast, the UID block and the
  context.
\<close>

definition NewPacket_start :: "world \<Rightarrow> env \<Rightarrow> Destination \<Rightarrow> Destination \<Rightarrow> 8 word list
    \<Rightarrow> int \<times> error \<Rightarrow> status \<times> event list \<times> world" where
  "NewPacket_start w e source destination data wr =
     (let natKey = NetAddr source
      in case sendTo w natKey data destination wr of
           Inl p \<Rightarrow> (Panicked, [], w)
         | Inr (sent, evs, w0) \<Rightarrow>
             if sent then (Returned, evs, w0)
             else
               (let lockKey = natKey @ ''-lock''
                in case natTable_GetOrCreateLock (udpTable (bridge w0)) lockKey (fresh_cond w0) of
                     Inl p \<Rightarrow> (Panicked, [], w0)
                   | Inr ((cond, loaded), tbl) \<Rightarrow>
                       (let w1 = w0\<lparr>bridge := (bridge w0)\<lparr>udpTable := tbl\<rparr>,
                                    fresh_cond := Suc (fresh_cond w0)\<rparr>
                        in if loaded then (Waiting cond, [], w1)
                           else
                             (let w2 = w1\<lparr>bridge := (bridge w1)
                                          \<lparr>udpTable := natTable_Delete (udpTable (bridge w1)) lockKey\<rparr>\<rparr>;
                                  t = bridge w2;
                                  inbound = \<lparr>Source = source, Tag = ''socks'',
                                             Inbound_Uid = 0, AppStatus = []\<rparr>;
                                  isDns = (Address_String destination = router t);
                                  inbound = (if isDns then inbound\<lparr>Tag := ''dns-in''\<rparr> else inbound);
                                  (uid, self, inbound, lines) =
                                     resolve_uid t e 1000
                                       (''[%s] %s ==> %s'', ''[%s][%s (%d/%s)] %s ==> %s'') inbound;
                                  ctx = \<lparr>ctx_Inbound = inbound,
                                         ctx_Content = sniffing_content t isDns [''quic'']\<rparr>
                              in (Dialing \<lparr>d_isDns = isDns, d_uid = uid, d_self = self\<rparr>,
                                  [Broadcast cond] @ lines @ [DialUDP ctx destination],
                                  w2)))))"

text \<open>After the wait on the condition variable: \<open>sendTo\<close> once more, and return.\<close>

definition NewPacket_after_wait :: "world \<Rightarrow> Destination \<Rightarrow> Destination \<Rightarrow> 8 word list
    \<Rightarrow> int \<times> error \<Rightarrow> status \<times> event list \<times> world" where
  "NewPacket_after_wait w source destination data wr =
     (case sendTo w (NetAddr source) data destination wr of
        Inl p \<Rightarrow> (Panicked, [], w)
      | Inr (sent, evs, w') \<Rightarrow> (Returned, evs, w'))"

text \<open>
  The loop. Each element of \<open>reads\<close> is what \<open>readFrom\<close> of the upstream connection
  returns and the error that \<open>writeBack\<close> returns for it. The result tells whether the
  loop was left; with no element left the handler is waiting in \<open>readFrom\<close>.
\<close>

fun read_loop :: "packetConn \<Rightarrow> bool \<Rightarrow> ((8 word list \<times> addr option \<times> error) \<times> error) list
    \<Rightarrow> heap \<Rightarrow> bool \<times> event list \<times> heap" where
  "read_loop conn isDns [] h = (False, [], h)"
| "read_loop conn isDns ((inner, wb_err) # rest) h =
     (let ((buffer, a, err), h') = packetConn_readFrom conn inner h
      in if err \<noteq> None then (True, [], h')
         else
           (let a = (if isDns then None else a);
                back = (case a of
                          Some (UDPAddr x) \<Rightarrow> WriteBack buffer (Some (UDPAddr x))
                        | _ \<Rightarrow> WriteBack buffer None)
            in if wb_err \<noteq> None then (True, [back], h')
               else (case read_loop conn isDns rest h' of
                       (left, evs, h'') \<Rightarrow> (left, back # evs, h''))))"

text \<open>
  From the return of \<open>dialUDP\<close>, with its result \<open>dialed\<close>, to the return of the
  handler. The goroutine started by \<open>go sendTo()\<close> is run at once.
\<close>

definition NewPacket_after_dial :: "world \<Rightarrow> env \<Rightarrow> Destination \<Rightarrow> Destination \<Rightarrow> 8 word list
    \<Rightarrow> dialing \<Rightarrow> conn \<times> error \<Rightarrow> int \<times> error
    \<Rightarrow> ((8 word list \<times> addr option \<times> error) \<times> error) list
    \<Rightarrow> status \<times> event list \<times> world" where
  "NewPacket_after_dial w e source destination data d dialed wr reads =
     (let natKey = NetAddr source;
          (c, err) = dialed
      in case err of
           Some msg \<Rightarrow> (Returned, [Errorf ''[UDP] dial failed: %s'' msg], w)
         | None \<Rightarrow>
             (let t = bridge w;
                  (stats, conn, w1) =
                     (if trafficStats t \<and> \<not> d_self d \<and> \<not> d_isDns d then
                        (let (stats, w') = attach w (d_uid d)
                         in (Some stats,
                             StatsPacketConn
                               (statsPacketConn c (stats, F_uplink) (stats, F_downlink)),
                             w'\<lparr>objects := enter_udp stats (objects w')\<rparr>))
                      else (None, PlainPacketConn c, w));
                  w2 = w1\<lparr>bridge := (bridge w1)
                            \<lparr>udpTable := natTable_Set (udpTable (bridge w1)) natKey conn\<rparr>\<rparr>
              in case sendTo w2 natKey data destination wr of
                   Inl p \<Rightarrow> (Panicked, [], w2)
                 | Inr (sent, first, w3) \<Rightarrow>
                     (let (left, evs, h) = read_loop conn (d_isDns d) reads (objects w3);
                          w4 = w3\<lparr>objects := h\<rparr>
                      in if \<not> left then (Reading, first @ evs, w4)
                         else
                           (let closes = closeIgnore [C_packetConn conn, C_closer];
                                w5 = w4\<lparr>bridge := (bridge w4)
                                          \<lparr>udpTable := natTable_Delete (udpTable (bridge w4)) natKey\<rparr>\<rparr>;
                                w6 = (case stats of
                                        None \<Rightarrow> w5
                                      | Some r \<Rightarrow>
                                          w5\<lparr>objects := leave_udp r (now_Unix e) (objects w5)\<rparr>)
                            in (Returned, first @ evs @ closes, w6)))))"

text \<open>
  The handler run alone: it cannot be woken from the wait, and the dial returns
  \<open>dialed\<close>.
\<close>

definition NewPacket :: "world \<Rightarrow> env \<Rightarrow> Destination \<Rightarrow> Destination \<Rightarrow> 8 word list
    \<Rightarrow> int \<times> error \<Rightarrow> conn \<times> error
    \<Rightarrow> ((8 word list \<times> addr option \<times> error) \<times> error) list
    \<Rightarrow> status \<times> event list \<times> world" where
  "NewPacket w e source destination data wr dialed reads =
     (case NewPacket_start w e source destination data wr of
        (Dialing d, evs, w') \<Rightarrow>
          (case NewPacket_after_dial w' e source destination data d dialed wr reads of
             (st, evs', w'') \<Rightarrow> (st, evs @ evs', w''))
      | (st, evs, w') \<Rightarrow> (st, evs, w'))"

subsection \<open>Example flows\<close>

text \<open>
  A bridge with sniffing, FakeDNS and traffic statistics on, whose NAT table is empty; an
  application with UID 10077 behind the source endpoint \<open>10.0.0.2:6000\<close>; the router
  address \<open>1.2.3.4\<close> and a web server as destinations. \<open>w_dialing\<close> is the state when
  a first call of \<open>NewPacket\<close> from that endpoint has reached \<open>dialUDP\<close>.
\<close>

definition w_one :: world where
  "w_one = \<lparr>bridge = t_one\<lparr>sniffing := True, fakedns := True\<rparr>, objects = h_busy, fresh = 1, fresh_cond = 0\<rparr>"

definition e_app :: env where
  "e_app = \<lparr>DumpUid_result = (10077, None), GetUidInfo_result = None, Getuid = 10123,
            foregroundUid = 10042, foregroundImeUid = 10050, now_Unix = 1700000000\<rparr>"

definition src_app :: Destination where
  "src_app = \<lparr>Address_String = ''10.0.0.2'', Address_IsIPv6 = False, Port = 6000,
              NetAddr = ''10.0.0.2:6000''\<rparr>"


definition dst_web :: Destination where
  "dst_web = \<lparr>Address_String = ''93.184.216.34'', Address_IsIPv6 = False, Port = 443,
              NetAddr = ''93.184.216.34:443''\<rparr>"

definition w_dialing :: world where
  "w_dialing = snd (snd (NewPacket_start w_one e_app src_app dst_web [1, 2, 3] (3, None)))"

section \<open>Properties of the traffic accounting\<close>

subsection \<open>The loops in closed form, and auxiliary facts\<close>

lemma read_body_snd: "snd (read_body uid r h) = h(r := flushed (h r))"
  by (simp add: read_body_def flushed_def atomic_SwapUint64_def atomic_AddUint64_def
      atomic_LoadUint64_def atomic_StoreUint64_def Let_def fun_eq_iff)

lemma read_body_fst:
  "fst (read_body uid r h) =
     \<lparr>Uid = ucast uid, TcpConn = tcpConn (h r), UdpConn = udpConn (h r),
      TcpConnTotal = ucast (tcpConnTotal (h r)), UdpConnTotal = ucast (udpConnTotal (h r)),
      Uplink = ucast (uplink (h r)), Downlink = ucast (downlink (h r)),
      UplinkTotal = ucast (uplinkTotal (h r) + uplink (h r)),
      DownlinkTotal = ucast (downlinkTotal (h r) + downlink (h r)),
      DeactivateAt = ucast (deactivateAt (h r))\<rparr>"
  by (simp add: read_body_def atomic_SwapUint64_def atomic_AddUint64_def
      atomic_LoadUint64_def atomic_StoreUint64_def Let_def)

lemma flushed_idem: "flushed (flushed s) = flushed s"
  by (simp add: flushed_def)

lemma read_range_heap:
  "snd (read_range m ks h stats) =
     (\<lambda>r. if r \<in> {r. \<exists>uid \<in> set ks. m uid = Some r} then flushed (h r) else h r)"
proof (induction ks arbitrary: h stats)
  case Nil
  then show ?case by simp
next
  case (Cons uid ks)
  show ?case
  proof (cases "m uid")
    case None
    then show ?thesis using Cons.IH [of h stats] by (auto simp: fun_eq_iff)
  next
    case (Some r)
    obtain e h1 where rb: "read_body uid r h = (e, h1)" by (cases "read_body uid r h")
    then have h1: "h1 = h(r := flushed (h r))" using read_body_snd [of uid r h] by simp
    have "snd (read_range m (uid # ks) h stats) = snd (read_range m ks h1 (stats @ [e]))"
      using Some rb by simp
    also have "\<dots> = (\<lambda>x. if x \<in> {r. \<exists>uid \<in> set ks. m uid = Some r} then flushed (h1 x) else h1 x)"
      by (rule Cons.IH)
    also have "\<dots> = (\<lambda>x. if x \<in> {r. \<exists>k \<in> set (uid # ks). m k = Some r} then flushed (h x) else h x)"
      unfolding h1 using Some by (auto simp: fun_eq_iff flushed_idem)
    finally show ?thesis .
  qed
qed

lemma read_range_stats:
  "distinct ks \<Longrightarrow> set ks \<subseteq> dom m \<Longrightarrow> inj_on m (set ks) \<Longrightarrow>
   fst (read_range m ks h stats) = stats @ map (\<lambda>uid. fst (read_body uid (the (m uid)) h)) ks"
proof (induction ks arbitrary: h stats)
  case Nil
  then show ?case by simp
next
  case (Cons uid ks)
  from Cons.prems obtain r where r: "m uid = Some r" by auto
  obtain e h1 where rb: "read_body uid r h = (e, h1)" by (cases "read_body uid r h")
  then have h1: "h1 = h(r := flushed (h r))" using read_body_snd [of uid r h] by simp
  have other: "the (m k) \<noteq> r" if "k \<in> set ks" for k
  proof
    assume "the (m k) = r"
    moreover from that Cons.prems obtain r' where "m k = Some r'" by auto
    ultimately have eq: "m k = m uid" using r by simp
    have notin: "uid \<notin> set ks" using Cons.prems(1) by simp
    have "m uid \<notin> m ` (set ks - {uid})" using Cons.prems(3) by simp
    moreover have "k \<in> set ks - {uid}" using that notin by auto
    ultimately show False using eq by (metis imageI)
  qed
  have IH: "fst (read_range m ks h1 (stats @ [e]))
      = (stats @ [e]) @ map (\<lambda>uid. fst (read_body uid (the (m uid)) h1)) ks"
    using Cons.prems by (intro Cons.IH) (auto simp: inj_on_def)
  have "map (\<lambda>uid. fst (read_body uid (the (m uid)) h1)) ks
      = map (\<lambda>uid. fst (read_body uid (the (m uid)) h)) ks"
    by (rule map_cong [OF refl]) (simp add: read_body_fst h1 other)
  moreover have "e = fst (read_body uid (the (m uid)) h)" using r rb by simp
  moreover have "fst (read_range m (uid # ks) h stats) = fst (read_range m ks h1 (stats @ [e]))"
    using r rb by simp
  ultimately show ?case using IH by simp
qed

lemma find_map_ucast:
  "uid \<in> set ks \<Longrightarrow> (\<And>k. Uid (f k) = ucast k) \<Longrightarrow>
   find (\<lambda>e. Uid e = (ucast (uid :: 16 word) :: 32 word)) (map f ks) = Some (f uid)"
proof (induction ks)
  case Nil then show ?case by simp
next
  case (Cons k ks)
  have inj: "(ucast k :: 32 word) = ucast uid \<longleftrightarrow> k = uid"
  proof
    assume "(ucast k :: 32 word) = ucast uid"
    then have "(ucast (ucast k :: 32 word) :: 16 word) = ucast (ucast uid :: 32 word)" by simp
    then show "k = uid" by (simp add: ucast_up_ucast_id is_up)
  qed simp
  show ?case using Cons by (auto simp: inj)
qed

lemma ReadAppTraffics_closed:
  assumes "trafficStats t" "distinct ks" "set ks = dom (appStats t)"
    "inj_on (appStats t) (dom (appStats t))"
  shows "ReadAppTraffics t ks h =
     (t, map (\<lambda>uid. fst (read_body uid (the (appStats t uid)) h)) ks,
      (\<lambda>r. if r \<in> ran (appStats t) then flushed (h r) else h r))"
proof -
  have R: "{r. \<exists>uid \<in> set ks. appStats t uid = Some r} = ran (appStats t)"
    using assms(3) by (auto simp: ran_def)
  have "fst (read_range (appStats t) ks h []) = [] @ map (\<lambda>uid. fst (read_body uid (the (appStats t uid)) h)) ks"
    using assms by (intro read_range_stats) auto
  moreover have "snd (read_range (appStats t) ks h []) = (\<lambda>r. if r \<in> ran (appStats t) then flushed (h r) else h r)"
    unfolding read_range_heap R ..
  ultimately show ?thesis using assms(1)
    by (cases "read_range (appStats t) ks h []") (simp add: ReadAppTraffics_def)
qed

lemma reported_map:
  assumes "uid \<in> set ks"
  shows "reported (map (\<lambda>uid. fst (read_body uid (f uid) h)) ks) uid = Some (fst (read_body uid (f uid) h))"
  unfolding reported_def using assms
  by (rule find_map_ucast) (simp add: read_body_fst)

lemma uint_of_nonneg_sint:
  fixes a :: "32 word"
  assumes "0 \<le> sint a"
  shows "uint a = sint a" and "uint a < 2 ^ 31"
proof -
  have lt: "sint a < 2 ^ 31" using sint_lt [of a] by simp
  have "uint a = take_bit 32 (sint a)" using uint_sint [of a] by simp
  also have "\<dots> = sint a"
    using assms lt by (simp add: take_bit_int_eq_self)
  finally show "uint a = sint a" .
  then show "uint a < 2 ^ 31" using lt by simp
qed

lemma int32_sum_zero:
  fixes a b :: "32 word"
  assumes "0 \<le> sint a" "0 \<le> sint b"
  shows "a + b = 0 \<longleftrightarrow> a = 0 \<and> b = 0"
proof
  assume z: "a + b = 0"
  have "uint a + uint b < 2 ^ 32"
    using uint_of_nonneg_sint(2) [OF assms(1)] uint_of_nonneg_sint(2) [OF assms(2)] by simp
  then have "uint (a + b) = uint a + uint b"
    using uint_add_lem [of a b] by simp
  then have "uint a + uint b = 0" using z by simp
  moreover have "0 \<le> uint a" "0 \<le> uint b" by simp_all
  ultimately have "uint a = 0" "uint b = 0" by linarith+
  then show "a = 0 \<and> b = 0" by (simp add: uint_0_iff)
qed simp

lemma reset_body_eq: "reset_body r h = h(r := zeroed (h r))"
  by (simp add: reset_body_def zeroed_def atomic_StoreUint64_def Let_def fun_eq_iff)

lemma zeroed_idem: "zeroed (zeroed s) = zeroed s"
  by (simp add: zeroed_def)

lemma zeroed_live: "tcpConn (zeroed s) = tcpConn s" "udpConn (zeroed s) = udpConn s"
  by (simp_all add: zeroed_def)

lemma reset_range_heap:
  "snd (reset_range m ks h toDel) =
     (\<lambda>r. if r \<in> {r. \<exists>uid \<in> set ks. m uid = Some r} then zeroed (h r) else h r)"
proof (induction ks arbitrary: h toDel)
  case Nil
  then show ?case by simp
next
  case (Cons uid ks)
  show ?case
  proof (cases "m uid")
    case None
    then show ?thesis using Cons.IH [of h toDel] by (auto simp: fun_eq_iff)
  next
    case (Some r)
    define h1 where "h1 = h(r := zeroed (h r))"
    define td where "td = (if tcpConn (h1 r) + udpConn (h1 r) = 0 then toDel @ [uid] else toDel)"
    have "snd (reset_range m (uid # ks) h toDel) = snd (reset_range m ks h1 td)"
      using Some by (simp add: reset_body_eq h1_def td_def Let_def)
    also have "\<dots> = (\<lambda>x. if x \<in> {r. \<exists>uid \<in> set ks. m uid = Some r} then zeroed (h1 x) else h1 x)"
      by (rule Cons.IH)
    also have "\<dots> = (\<lambda>x. if x \<in> {r. \<exists>k \<in> set (uid # ks). m k = Some r} then zeroed (h x) else h x)"
      unfolding h1_def using Some by (auto simp: fun_eq_iff zeroed_idem)
    finally show ?thesis .
  qed
qed

lemma reset_range_toDel:
  "fst (reset_range m ks h toDel) = toDel @ filter (idle_in m h) ks"
proof (induction ks arbitrary: h toDel)
  case Nil
  then show ?case by simp
next
  case (Cons uid ks)
  show ?case
  proof (cases "m uid")
    case None
    then show ?thesis using Cons.IH [of h toDel] by (simp add: idle_in_def)
  next
    case (Some r)
    define h1 where "h1 = h(r := zeroed (h r))"
    define td where "td = (if tcpConn (h1 r) + udpConn (h1 r) = 0 then toDel @ [uid] else toDel)"
    have same: "idle_in m h1 = idle_in m h"
      by (auto simp: idle_in_def h1_def zeroed_live fun_eq_iff split: option.splits)
    have td: "td = toDel @ filter (idle_in m h) [uid]"
      using Some by (simp add: td_def idle_in_def h1_def zeroed_live)
    have "fst (reset_range m (uid # ks) h toDel) = fst (reset_range m ks h1 td)"
      using Some by (simp add: reset_body_eq h1_def td_def Let_def)
    also have "\<dots> = td @ filter (idle_in m h1) ks"
      by (rule Cons.IH)
    finally show ?thesis by (simp add: td same)
  qed
qed

lemma delete_all_apply: "delete_all toDel m uid = (if uid \<in> set toDel then None else m uid)"
  unfolding delete_all_def
  by (induction toDel arbitrary: m) auto

lemma ResetAppTraffics_map:
  assumes "trafficStats t" "set ks = dom (appStats t)"
  shows "appStats (fst (ResetAppTraffics t ks h)) uid =
     (if idle_in (appStats t) h uid then None else appStats t uid)"
proof -
  obtain toDel h' where rr: "reset_range (appStats t) ks h [] = (toDel, h')"
    by (cases "reset_range (appStats t) ks h []")
  have td: "toDel = filter (idle_in (appStats t) h) ks"
    using reset_range_toDel [of "appStats t" ks h "[]"] rr by simp
  have mem: "uid \<in> set toDel \<longleftrightarrow> idle_in (appStats t) h uid"
    using assms(2) by (auto simp: td idle_in_def split: option.splits)
  show ?thesis
  proof (cases "toDel = []")
    case True
    then show ?thesis using assms(1) rr mem by (simp add: ResetAppTraffics_def)
  next
    case False
    then show ?thesis using assms(1) rr mem
      by (simp add: ResetAppTraffics_def delete_all_apply)
  qed
qed

lemma ResetAppTraffics_heap:
  assumes "trafficStats t" "set ks = dom (appStats t)"
  shows "snd (ResetAppTraffics t ks h) =
     (\<lambda>r. if r \<in> ran (appStats t) then zeroed (h r) else h r)"
proof -
  have R: "{r. \<exists>uid \<in> set ks. appStats t uid = Some r} = ran (appStats t)"
    using assms(2) by (auto simp: ran_def)
  obtain toDel h' where rr: "reset_range (appStats t) ks h [] = (toDel, h')"
    by (cases "reset_range (appStats t) ks h []")
  have "h' = (\<lambda>r. if r \<in> ran (appStats t) then zeroed (h r) else h r)"
    using reset_range_heap [of "appStats t" ks h "[]"] rr by (simp add: R)
  then show ?thesis using assms(1) rr by (simp add: ResetAppTraffics_def)
qed

lemma get64_set64: "get64 (set64 s f v) g = (if g = f then v else get64 s g)"
  by (cases f; cases g) simp_all

lemma other_fields_set64: "other_fields (set64 s f v) = other_fields s"
  by (cases f) (simp_all add: other_fields_def)

lemma load_store:
  "atomic_LoadUint64 (atomic_StoreUint64 h p v) q = (if q = p then v else atomic_LoadUint64 h q)"
  by (cases p; cases q) (simp add: atomic_LoadUint64_def atomic_StoreUint64_def get64_set64)

lemma other_fields_store: "other_fields (atomic_StoreUint64 h p v r) = other_fields (h r)"
  by (simp add: atomic_StoreUint64_def other_fields_set64)

lemma load_add:
  "atomic_LoadUint64 (snd (atomic_AddUint64 h p d)) q =
     (if q = p then atomic_LoadUint64 h p + d else atomic_LoadUint64 h q)"
  by (simp add: atomic_AddUint64_def Let_def load_store)

lemma other_fields_add: "other_fields (snd (atomic_AddUint64 h p d) r) = other_fields (h r)"
  by (simp add: atomic_AddUint64_def Let_def other_fields_store)

lemma t_one_simps:
  "trafficStats t_one" "appStats t_one 10042 = Some 0" "dom (appStats t_one) = {10042}"
  "inj_on (appStats t_one) (dom (appStats t_one))"
  by (simp_all add: t_one_def)

lemma sint_ucast_64_32:
  "sint (ucast (x :: 64 word) :: 32 word) = signed_take_bit 31 (sint x)"
proof -
  have "sint (ucast x :: 32 word) = signed_take_bit 31 (uint x)"
    using sint_sbintrunc' [where ?'a = 32, of "uint x"] unfolding ucast_eq by simp
  also have "\<dots> = signed_take_bit 31 (take_bit 64 (sint x))"
    using uint_sint [of x] by simp
  also have "\<dots> = signed_take_bit 31 (sint x)"
    by (simp add: signed_take_bit_take_bit)
  finally show ?thesis .
qed

lemma total_of_add_window:
  assumes "window_ptrs up down"
  shows "uplinkTotal (snd (atomic_AddUint64 h up d) r) = uplinkTotal (h r)"
        "downlinkTotal (snd (atomic_AddUint64 h up d) r) = downlinkTotal (h r)"
        "uplinkTotal (snd (atomic_AddUint64 h down d) r) = uplinkTotal (h r)"
        "downlinkTotal (snd (atomic_AddUint64 h down d) r) = downlinkTotal (h r)"
  using assms
  by (cases up; cases down;
      simp add: window_ptrs_def atomic_AddUint64_def atomic_StoreUint64_def Let_def)+

lemma flushed_total_mono:
  assumes "total_fits s"
  shows "unat (uplinkTotal s) \<le> unat (uplinkTotal (flushed s))"
    and "unat (downlinkTotal s) \<le> unat (downlinkTotal (flushed s))"
proof -
  have "unat (uplinkTotal s + uplink s) = unat (uplinkTotal s) + unat (uplink s)"
    using assms unat_add_lem [of "uplinkTotal s" "uplink s"] by (simp add: total_fits_def)
  then show "unat (uplinkTotal s) \<le> unat (uplinkTotal (flushed s))" by (simp add: flushed_def)
  have "unat (downlinkTotal s + downlink s) = unat (downlinkTotal s) + unat (downlink s)"
    using assms unat_add_lem [of "downlinkTotal s" "downlink s"] by (simp add: total_fits_def)
  then show "unat (downlinkTotal s) \<le> unat (downlinkTotal (flushed s))" by (simp add: flushed_def)
qed

lemma ReadAppTraffics_heap_cases:
  "snd (snd (ReadAppTraffics t ks h)) r = h r \<or> snd (snd (ReadAppTraffics t ks h)) r = flushed (h r)"
proof (cases "trafficStats t")
  case False
  then show ?thesis by (simp add: ReadAppTraffics_def)
next
  case True
  then have "snd (snd (ReadAppTraffics t ks h)) = snd (read_range (appStats t) ks h [])"
    by (simp add: ReadAppTraffics_def split_beta)
  then show ?thesis by (simp add: read_range_heap)
qed

lemma apply_op_total_mono:
  assumes "op_ok r x (t, h)" and "apply_op x (t, h) = (t', h')"
  shows "unat (uplinkTotal (h r)) \<le> unat (uplinkTotal (h' r))
       \<and> unat (downlinkTotal (h r)) \<le> unat (downlinkTotal (h' r))"
proof (cases x)
  case (Op_Read c n err)
  then show ?thesis using assms
    by (auto simp: statsConn_Read_def split_beta total_of_add_window)
next
  case (Op_Write c n err)
  then show ?thesis using assms
    by (auto simp: statsConn_Write_def split_beta total_of_add_window)
next
  case (Op_ReadFrom c n a err)
  then show ?thesis using assms
    by (auto simp: statsPacketConn_ReadFrom_def total_of_add_window split: if_splits)
next
  case (Op_readFrom c p a err)
  then show ?thesis using assms
    by (auto simp: statsPacketConn_readFrom_def total_of_add_window split: if_splits)
next
  case (Op_WriteTo c n err)
  then show ?thesis using assms
    by (auto simp: statsPacketConn_WriteTo_def total_of_add_window split: if_splits)
next
  case (Op_ReadAppTraffics ks)
  then have fits: "total_fits (h r)" and h': "h' = snd (snd (ReadAppTraffics t ks h))"
    using assms by (auto split: prod.splits)
  show ?thesis
    using ReadAppTraffics_heap_cases [of t ks h r] flushed_total_mono [OF fits]
    by (auto simp: h')
next
  case (Op_ResetAppTraffics ks)
  then show ?thesis using assms by simp
qed

text \<open>
  The add of a snapshot wraps around: from \<open>h_full\<close> the total uplink of the entry goes
  from \<open>2 ^ 64 - 1\<close> to 0.
\<close>

lemma snapshot_total_wraps:
  "unat (uplinkTotal (h_full 0)) = 2 ^ 64 - 1
   \<and> uplinkTotal (snd (snd (ReadAppTraffics t_one [10042] h_full)) 0) = 0"
  by (simp add: ReadAppTraffics_def read_body_def atomic_SwapUint64_def atomic_AddUint64_def
      atomic_LoadUint64_def atomic_StoreUint64_def t_one_def h_full_def)

subsection \<open>Snapshot\<close>

text \<open>
  Claim C1. With traffic statistics on, a call to \<open>ReadAppTraffics\<close> leaves both window
  counters of every entry at zero and each total at its old value plus the window swapped
  out (modulo \<open>2 ^ 64\<close>); one record is delivered per key; the record of the entry
  carries the swapped windows and the totals as they are after the add; and a second call
  on the resulting state, whatever the order of its loop, delivers for the entry zero
  windows and the same two totals. The keys of the map are visited once each and point to
  objects of their own.
\<close>

theorem ReadAppTraffics_moves_window_into_total:
  assumes "trafficStats t"
    and "distinct ks" and "set ks = dom (appStats t)"
    and "distinct ks2" and "set ks2 = dom (appStats t)"
    and "inj_on (appStats t) (dom (appStats t))"
    and "appStats t uid = Some r"
    and "ReadAppTraffics t ks h = (t1, stats1, h1)"
    and "ReadAppTraffics t1 ks2 h1 = (t2, stats2, h2)"
  shows "uplink (h1 r) = 0 \<and> downlink (h1 r) = 0
       \<and> uplinkTotal (h1 r) = uplinkTotal (h r) + uplink (h r)
       \<and> downlinkTotal (h1 r) = downlinkTotal (h r) + downlink (h r)
       \<and> map Uid stats1 = map ucast ks
       \<and> (\<exists>e1 e2. reported stats1 uid = Some e1 \<and> reported stats2 uid = Some e2
            \<and> Uplink e1 = ucast (uplink (h r)) \<and> Downlink e1 = ucast (downlink (h r))
            \<and> UplinkTotal e1 = ucast (uplinkTotal (h1 r))
            \<and> DownlinkTotal e1 = ucast (downlinkTotal (h1 r))
            \<and> Uplink e2 = 0 \<and> Downlink e2 = 0
            \<and> UplinkTotal e2 = UplinkTotal e1 \<and> DownlinkTotal e2 = DownlinkTotal e1)"
proof -
  have c1: "ReadAppTraffics t ks h =
     (t, map (\<lambda>uid. fst (read_body uid (the (appStats t uid)) h)) ks,
      (\<lambda>r. if r \<in> ran (appStats t) then flushed (h r) else h r))"
    using assms(1,2,3,6) by (rule ReadAppTraffics_closed)
  then have t1: "t1 = t"
    and s1: "stats1 = map (\<lambda>uid. fst (read_body uid (the (appStats t uid)) h)) ks"
    and h1: "h1 = (\<lambda>r. if r \<in> ran (appStats t) then flushed (h r) else h r)"
    using assms(8) by simp_all
  have c2: "ReadAppTraffics t ks2 h1 =
     (t, map (\<lambda>uid. fst (read_body uid (the (appStats t uid)) h1)) ks2,
      (\<lambda>r. if r \<in> ran (appStats t) then flushed (h1 r) else h1 r))"
    using assms(1,4,5,6) by (rule ReadAppTraffics_closed)
  have s2: "stats2 = map (\<lambda>uid. fst (read_body uid (the (appStats t uid)) h1)) ks2"
    using assms(9) [unfolded t1 c2] by auto
  have rin: "r \<in> ran (appStats t)" using assms(7) by (auto simp: ran_def)
  then have hr: "h1 r = flushed (h r)" by (simp add: h1)
  have k1: "uid \<in> set ks" and k2: "uid \<in> set ks2" using assms(3,5,7) by auto
  have e1: "reported stats1 uid = Some (fst (read_body uid r h))"
    using reported_map [OF k1, of "\<lambda>uid. the (appStats t uid)" h] assms(7) by (simp add: s1)
  have e2: "reported stats2 uid = Some (fst (read_body uid r h1))"
    using reported_map [OF k2, of "\<lambda>uid. the (appStats t uid)" h1] assms(7) by (simp add: s2)
  have uids: "map Uid stats1 = map ucast ks"
    by (simp add: s1 read_body_fst comp_def)
  show ?thesis
    by (simp add: e1 e2 uids read_body_fst hr flushed_def)
qed

theorem ReadAppTraffics_moves_window_into_total_witness:
  "trafficStats t_one \<and> appStats t_one 10042 = Some 0
   \<and> uplink (snd (snd (ReadAppTraffics t_one [10042] h_busy)) 0) = 0
   \<and> downlink (snd (snd (ReadAppTraffics t_one [10042] h_busy)) 0) = 0
   \<and> uplinkTotal (snd (snd (ReadAppTraffics t_one [10042] h_busy)) 0) = 14096
   \<and> downlinkTotal (snd (snd (ReadAppTraffics t_one [10042] h_busy)) 0) = 22048"
proof -
  obtain t1 stats1 h1 where r1: "ReadAppTraffics t_one [10042] h_busy = (t1, stats1, h1)"
    by (cases "ReadAppTraffics t_one [10042] h_busy")
  obtain t2 stats2 h2 where r2: "ReadAppTraffics t1 [10042] h1 = (t2, stats2, h2)"
    by (cases "ReadAppTraffics t1 [10042] h1")
  have d: "distinct [10042 :: uint16]" by simp
  have s: "set [10042 :: uint16] = dom (appStats t_one)" by (simp add: t_one_simps)
  note th = ReadAppTraffics_moves_window_into_total
    [OF t_one_simps(1) d s d s t_one_simps(4) t_one_simps(2) r1 r2]
  have v: "uplinkTotal (h_busy 0) + uplink (h_busy 0) = 14096"
    "downlinkTotal (h_busy 0) + downlink (h_busy 0) = 22048"
    by (simp_all add: h_busy_def)
  have "uplink (h1 0) = 0" "downlink (h1 0) = 0"
    "uplinkTotal (h1 0) = 14096" "downlinkTotal (h1 0) = 22048"
    using th v by simp_all
  then show ?thesis unfolding r1 by (simp add: t_one_simps)
qed

text \<open>
  Claim C3, as stated, fails: \<open>ReadAppTraffics\<close> has no pass that deletes. The entry of
  UID 10042 has no live TCP or UDP flow in \<open>h_idle\<close> and is still in the map after the
  call.
\<close>

theorem ReadAppTraffics_idle_entry_counterexample:
  "tcpConn (h_idle 0) = 0 \<and> udpConn (h_idle 0) = 0
   \<and> appStats t_one 10042 = Some 0
   \<and> appStats (fst (ReadAppTraffics t_one [10042] h_idle)) 10042 = Some 0"
  by (simp add: ReadAppTraffics_def split_beta t_one_def h_idle_def)

text \<open>
  Claim C3, amended. \<open>ReadAppTraffics\<close> returns the bridge as it was given: the map has
  the same entries after the call, idle or not, and the live counts, the connection
  totals and \<open>deactivateAt\<close> of every object are untouched. Idle entries are removed by
  \<open>ResetAppTraffics\<close> (claim C7).
\<close>

theorem ReadAppTraffics_keeps_every_entry:
  "fst (ReadAppTraffics t ks h) = t
   \<and> appStats (fst (ReadAppTraffics t ks h)) uid = appStats t uid
   \<and> other_fields (snd (snd (ReadAppTraffics t ks h)) r) = other_fields (h r)"
proof -
  have "fst (ReadAppTraffics t ks h) = t"
    by (simp add: ReadAppTraffics_def split_beta)
  moreover have "other_fields (flushed (h r)) = other_fields (h r)"
    by (simp add: other_fields_def flushed_def)
  ultimately show ?thesis
    using ReadAppTraffics_heap_cases [of t ks h r] by auto
qed

text \<open>
  Claim C10. The record delivered for an entry holds \<open>deactivateAt\<close> and the two
  connection totals reduced modulo \<open>2 ^ 32\<close> and read as signed 32-bit values; whenever
  the internal value is above \<open>2 ^ 31 - 1\<close> the exported value differs from it.
\<close>

theorem export_truncates_to_int32:
  assumes "trafficStats t"
    and "distinct ks" and "set ks = dom (appStats t)"
    and "inj_on (appStats t) (dom (appStats t))"
    and "appStats t uid = Some r"
    and "ReadAppTraffics t ks h = (t1, stats, h1)"
  shows "\<exists>e. reported stats uid = Some e
     \<and> sint (DeactivateAt e) = signed_take_bit 31 (sint (deactivateAt (h r)))
     \<and> sint (TcpConnTotal e) = signed_take_bit 31 (uint (tcpConnTotal (h r)))
     \<and> sint (UdpConnTotal e) = signed_take_bit 31 (uint (udpConnTotal (h r)))
     \<and> (2 ^ 31 - 1 < sint (deactivateAt (h r)) \<longrightarrow> sint (DeactivateAt e) \<noteq> sint (deactivateAt (h r)))
     \<and> (2 ^ 31 - 1 < uint (tcpConnTotal (h r)) \<longrightarrow> sint (TcpConnTotal e) \<noteq> uint (tcpConnTotal (h r)))
     \<and> (2 ^ 31 - 1 < uint (udpConnTotal (h r)) \<longrightarrow> sint (UdpConnTotal e) \<noteq> uint (udpConnTotal (h r)))"
proof -
  have "ReadAppTraffics t ks h =
     (t, map (\<lambda>uid. fst (read_body uid (the (appStats t uid)) h)) ks,
      (\<lambda>r. if r \<in> ran (appStats t) then flushed (h r) else h r))"
    using assms(1,2,3,4) by (rule ReadAppTraffics_closed)
  then have s: "stats = map (\<lambda>uid. fst (read_body uid (the (appStats t uid)) h)) ks"
    using assms(6) by simp
  have k: "uid \<in> set ks" using assms(3,5) by auto
  have e: "reported stats uid = Some (fst (read_body uid r h))"
    using reported_map [OF k, of "\<lambda>uid. the (appStats t uid)" h] assms(5) by (simp add: s)
  have lt: "sint (w :: 32 word) < 2 ^ 31" for w using sint_lt [of w] by simp
  have d: "sint (DeactivateAt (fst (read_body uid r h))) = signed_take_bit 31 (sint (deactivateAt (h r)))"
    by (simp add: read_body_fst sint_ucast_64_32)
  have tc: "sint (TcpConnTotal (fst (read_body uid r h))) = signed_take_bit 31 (uint (tcpConnTotal (h r)))"
    using sint_uint [of "tcpConnTotal (h r)"] by (simp add: read_body_fst)
  have uc: "sint (UdpConnTotal (fst (read_body uid r h))) = signed_take_bit 31 (uint (udpConnTotal (h r)))"
    using sint_uint [of "udpConnTotal (h r)"] by (simp add: read_body_fst)
  have d2: "2 ^ 31 - 1 < sint (deactivateAt (h r)) \<longrightarrow>
      sint (DeactivateAt (fst (read_body uid r h))) \<noteq> sint (deactivateAt (h r))"
    using lt [of "DeactivateAt (fst (read_body uid r h))"] by auto
  have tc2: "2 ^ 31 - 1 < uint (tcpConnTotal (h r)) \<longrightarrow>
      sint (TcpConnTotal (fst (read_body uid r h))) \<noteq> uint (tcpConnTotal (h r))"
    using lt [of "TcpConnTotal (fst (read_body uid r h))"] by auto
  have uc2: "2 ^ 31 - 1 < uint (udpConnTotal (h r)) \<longrightarrow>
      sint (UdpConnTotal (fst (read_body uid r h))) \<noteq> uint (udpConnTotal (h r))"
    using lt [of "UdpConnTotal (fst (read_body uid r h))"] by auto
  show ?thesis using e d tc uc d2 tc2 uc2 by blast
qed

theorem export_truncates_to_int32_witness:
  "trafficStats t_one \<and> appStats t_one 10042 = Some 0
   \<and> sint (deactivateAt (h_late 0)) = 2147483648
   \<and> uint (tcpConnTotal (h_late 0)) = 3000000000
   \<and> (\<exists>e. reported (fst (snd (ReadAppTraffics t_one [10042] h_late))) 10042 = Some e
          \<and> sint (DeactivateAt e) = - 2147483648
          \<and> sint (TcpConnTotal e) = - 1294967296
          \<and> sint (UdpConnTotal e) = 5)"
proof -
  obtain t1 stats1 h1 where r1: "ReadAppTraffics t_one [10042] h_late = (t1, stats1, h1)"
    by (cases "ReadAppTraffics t_one [10042] h_late")
  have d: "distinct [10042 :: uint16]" by simp
  have s: "set [10042 :: uint16] = dom (appStats t_one)" by (simp add: t_one_simps)
  have v: "sint (deactivateAt (h_late 0)) = 2147483648" "uint (tcpConnTotal (h_late 0)) = 3000000000"
     "uint (udpConnTotal (h_late 0)) = 5"
    by (simp_all add: h_late_def)
  have stb: "signed_take_bit 31 (2147483648 :: int) = - 2147483648"
       "signed_take_bit 31 (3000000000 :: int) = - 1294967296"
       "signed_take_bit 31 (5 :: int) = 5"
    by (simp_all add: signed_take_bit_eq_take_bit_shift)
  from export_truncates_to_int32
    [OF t_one_simps(1) d s t_one_simps(4) t_one_simps(2) r1]
  obtain e where "reported stats1 10042 = Some e"
    and "sint (DeactivateAt e) = - 2147483648"
    and "sint (TcpConnTotal e) = - 1294967296"
    and "sint (UdpConnTotal e) = 5"
    by (auto simp: v stb)
  then show ?thesis unfolding r1 by (simp add: t_one_simps v)
qed

subsection \<open>Reset\<close>

text \<open>
  Claim C7. With traffic statistics on, \<open>ResetAppTraffics\<close> leaves the four byte counters
  of every entry of the map at zero and the live counts as they were; the map after the
  call has exactly the entries whose TCP and UDP live counts are not both zero; and so
  every surviving entry has its four byte counters at zero. The live counts are not
  negative (each is incremented before it is decremented), so that the 32-bit sum tested
  by the code is zero only when both are.
\<close>

theorem ResetAppTraffics_zeroes_and_collects:
  assumes "trafficStats t" and "set ks = dom (appStats t)"
    and "\<forall>uid r. appStats t uid = Some r \<longrightarrow> 0 \<le> sint (tcpConn (h r)) \<and> 0 \<le> sint (udpConn (h r))"
    and "ResetAppTraffics t ks h = (t', h')"
  shows "(\<forall>uid r. appStats t uid = Some r \<longrightarrow>
            uplink (h' r) = 0 \<and> downlink (h' r) = 0
          \<and> uplinkTotal (h' r) = 0 \<and> downlinkTotal (h' r) = 0
          \<and> tcpConn (h' r) = tcpConn (h r) \<and> udpConn (h' r) = udpConn (h r))
       \<and> (\<forall>uid. appStats t' uid =
            (case appStats t uid of
               None \<Rightarrow> None
             | Some r \<Rightarrow> if tcpConn (h r) = 0 \<and> udpConn (h r) = 0 then None else Some r))
       \<and> (\<forall>uid r. appStats t' uid = Some r \<longrightarrow>
            uplink (h' r) = 0 \<and> downlink (h' r) = 0
          \<and> uplinkTotal (h' r) = 0 \<and> downlinkTotal (h' r) = 0)"
proof -
  have h': "h' = (\<lambda>r. if r \<in> ran (appStats t) then zeroed (h r) else h r)"
    using ResetAppTraffics_heap [OF assms(1,2), of h] assms(4) by simp
  have m': "appStats t' uid = (if idle_in (appStats t) h uid then None else appStats t uid)" for uid
    using ResetAppTraffics_map [OF assms(1,2), of h uid] assms(4) by simp
  have entry: "uplink (h' r) = 0 \<and> downlink (h' r) = 0
          \<and> uplinkTotal (h' r) = 0 \<and> downlinkTotal (h' r) = 0
          \<and> tcpConn (h' r) = tcpConn (h r) \<and> udpConn (h' r) = udpConn (h r)"
    if "appStats t uid = Some r" for uid r
  proof -
    from that have "r \<in> ran (appStats t)" by (auto simp: ran_def)
    then show ?thesis by (simp add: h' zeroed_def)
  qed
  have idle: "idle_in (appStats t) h uid \<longleftrightarrow>
      (case appStats t uid of None \<Rightarrow> False | Some r \<Rightarrow> tcpConn (h r) = 0 \<and> udpConn (h r) = 0)" for uid
  proof (cases "appStats t uid")
    case None
    then show ?thesis by (simp add: idle_in_def)
  next
    case (Some r)
    with assms(3) have "0 \<le> sint (tcpConn (h r))" "0 \<le> sint (udpConn (h r))" by auto
    then show ?thesis using Some by (simp add: idle_in_def int32_sum_zero)
  qed
  have surv: "appStats t uid = Some r" if "appStats t' uid = Some r" for uid r
    using that m' [of uid] by (simp split: if_splits)
  have new_map: "appStats t' uid =
            (case appStats t uid of
               None \<Rightarrow> None
             | Some r \<Rightarrow> if tcpConn (h r) = 0 \<and> udpConn (h r) = 0 then None else Some r)" for uid
    by (simp add: m' idle split: option.splits)
  have survivors: "uplink (h' r) = 0 \<and> downlink (h' r) = 0
          \<and> uplinkTotal (h' r) = 0 \<and> downlinkTotal (h' r) = 0"
    if "appStats t' uid = Some r" for uid r
    using entry [OF surv [OF that]] by simp
  have p1: "\<forall>uid r. appStats t uid = Some r \<longrightarrow>
            uplink (h' r) = 0 \<and> downlink (h' r) = 0
          \<and> uplinkTotal (h' r) = 0 \<and> downlinkTotal (h' r) = 0
          \<and> tcpConn (h' r) = tcpConn (h r) \<and> udpConn (h' r) = udpConn (h r)"
    by (intro allI impI) (erule entry)
  have p2: "\<forall>uid. appStats t' uid =
            (case appStats t uid of
               None \<Rightarrow> None
             | Some r \<Rightarrow> if tcpConn (h r) = 0 \<and> udpConn (h r) = 0 then None else Some r)"
    by (intro allI) (rule new_map)
  have p3: "\<forall>uid r. appStats t' uid = Some r \<longrightarrow>
            uplink (h' r) = 0 \<and> downlink (h' r) = 0
          \<and> uplinkTotal (h' r) = 0 \<and> downlinkTotal (h' r) = 0"
    by (intro allI impI) (erule survivors)
  show ?thesis by (rule conjI [OF p1 conjI [OF p2 p3]])
qed

theorem ResetAppTraffics_zeroes_and_collects_witness:
  "trafficStats t_one \<and> appStats t_one 10042 = Some 0
   \<and> appStats (fst (ResetAppTraffics t_one [10042] h_idle)) 10042 = None
   \<and> appStats (fst (ResetAppTraffics t_one [10042] h_busy)) 10042 = Some 0
   \<and> uplinkTotal (snd (ResetAppTraffics t_one [10042] h_busy) 0) = 0
   \<and> uplinkTotal (snd (ResetAppTraffics t_one [10042] h_idle) 0) = 0"
proof -
  obtain t1 h1 where 1: "ResetAppTraffics t_one [10042] h_idle = (t1, h1)"
    by (cases "ResetAppTraffics t_one [10042] h_idle")
  obtain t2 h2 where 2: "ResetAppTraffics t_one [10042] h_busy = (t2, h2)"
    by (cases "ResetAppTraffics t_one [10042] h_busy")
  have s: "set [10042 :: uint16] = dom (appStats t_one)" by (simp add: t_one_simps)
  have n1: "\<forall>uid r. appStats t_one uid = Some r \<longrightarrow>
      0 \<le> sint (tcpConn (h_idle r)) \<and> 0 \<le> sint (udpConn (h_idle r))"
    by (auto simp: t_one_def h_idle_def split: if_splits)
  have n2: "\<forall>uid r. appStats t_one uid = Some r \<longrightarrow>
      0 \<le> sint (tcpConn (h_busy r)) \<and> 0 \<le> sint (udpConn (h_busy r))"
    by (auto simp: t_one_def h_busy_def split: if_splits)
  note idle = ResetAppTraffics_zeroes_and_collects [OF t_one_simps(1) s n1 1]
  note busy = ResetAppTraffics_zeroes_and_collects [OF t_one_simps(1) s n2 2]
  have live: "tcpConn (h_idle 0) = 0" "udpConn (h_idle 0) = 0" "tcpConn (h_busy 0) = 1"
    by (simp_all add: h_idle_def h_busy_def)
  have a: "appStats t1 10042 = None"
    using idle [THEN conjunct2, THEN conjunct1, THEN spec, of 10042] live
    by (simp add: t_one_simps)
  have b: "appStats t2 10042 = Some 0"
    using busy [THEN conjunct2, THEN conjunct1, THEN spec, of 10042] live
    by (simp add: t_one_simps)
  have c: "uplinkTotal (h2 0) = 0"
    using busy [THEN conjunct1, THEN spec, THEN spec, of 10042 0] by (simp add: t_one_simps)
  have d: "uplinkTotal (h1 0) = 0"
    using idle [THEN conjunct1, THEN spec, THEN spec, of 10042 0] by (simp add: t_one_simps)
  show ?thesis unfolding 1 2 using a b c d by (simp add: t_one_simps)
qed

subsection \<open>The wrappers\<close>

text \<open>
  Claim C5. A read through \<open>statsConn\<close> returns what the wrapped connection returned,
  \<open>(n, err)\<close>, and adds \<open>n\<close> (as a 64-bit unsigned value) to the counter behind
  \<open>uplink\<close>, whether \<open>err\<close> is nil or not; a write does the same with the counter behind
  \<open>downlink\<close>. No other byte counter and no other field of any object changes.
\<close>

theorem statsConn_adds_the_returned_count:
  assumes "statsConn_Read c (n, err) h = (res1, h1)"
    and "statsConn_Write c (n, err) h = (res2, h2)"
  shows "res1 = (n, err)
       \<and> atomic_LoadUint64 h1 (sc_uplink c) = atomic_LoadUint64 h (sc_uplink c) + word_of_int n
       \<and> (\<forall>p. p \<noteq> sc_uplink c \<longrightarrow> atomic_LoadUint64 h1 p = atomic_LoadUint64 h p)
       \<and> (\<forall>r. other_fields (h1 r) = other_fields (h r))
       \<and> res2 = (n, err)
       \<and> atomic_LoadUint64 h2 (sc_downlink c) = atomic_LoadUint64 h (sc_downlink c) + word_of_int n
       \<and> (\<forall>p. p \<noteq> sc_downlink c \<longrightarrow> atomic_LoadUint64 h2 p = atomic_LoadUint64 h p)
       \<and> (\<forall>r. other_fields (h2 r) = other_fields (h r))"
proof -
  have r1: "res1 = (n, err)" and h1: "h1 = snd (atomic_AddUint64 h (sc_uplink c) (word_of_int n))"
    using assms(1) by (auto simp: statsConn_Read_def split_beta)
  have r2: "res2 = (n, err)" and h2: "h2 = snd (atomic_AddUint64 h (sc_downlink c) (word_of_int n))"
    using assms(2) by (auto simp: statsConn_Write_def split_beta)
  show ?thesis
    by (simp add: r1 r2 h1 h2 load_add other_fields_add)
qed

theorem statsConn_adds_the_returned_count_witness:
  "fst (statsConn_Read c_one (100, Some ''EOF'') h_busy) = (100, Some ''EOF'')
   \<and> atomic_LoadUint64 (snd (statsConn_Read c_one (100, Some ''EOF'') h_busy)) (0, F_uplink) = 4196
   \<and> atomic_LoadUint64 (snd (statsConn_Read c_one (100, Some ''EOF'') h_busy)) (0, F_downlink) = 2048
   \<and> atomic_LoadUint64 (snd (statsConn_Write c_one (100, Some ''EOF'') h_busy)) (0, F_downlink) = 2148"
proof -
  obtain res1 h1 where 1: "statsConn_Read c_one (100, Some ''EOF'') h_busy = (res1, h1)"
    by (cases "statsConn_Read c_one (100, Some ''EOF'') h_busy")
  obtain res2 h2 where 2: "statsConn_Write c_one (100, Some ''EOF'') h_busy = (res2, h2)"
    by (cases "statsConn_Write c_one (100, Some ''EOF'') h_busy")
  have up: "sc_uplink c_one = (0, F_uplink)" and down: "sc_downlink c_one = (0, F_downlink)"
    by (simp_all add: c_one_def)
  note th = statsConn_adds_the_returned_count [OF 1 2]
  have v: "atomic_LoadUint64 h_busy (0, F_uplink) = 4096"
    "atomic_LoadUint64 h_busy (0, F_downlink) = 2048"
    by (simp_all add: atomic_LoadUint64_def h_busy_def)
  have a: "res1 = (100, Some ''EOF'')" using th by simp
  have b: "atomic_LoadUint64 h1 (0, F_uplink) = 4196" using th v by (simp add: up)
  have c: "atomic_LoadUint64 h1 (0, F_downlink) = 2048" using th v by (simp add: up)
  have d: "atomic_LoadUint64 h2 (0, F_downlink) = 2148" using th v by (simp add: down)
  show ?thesis unfolding 1 2 using a b c d by simp
qed

text \<open>
  Claim C6. \<open>ReadFrom\<close> and \<open>readFrom\<close> of \<open>statsPacketConn\<close> add the size read to the
  counter behind \<open>downlink\<close>, and \<open>WriteTo\<close> adds the size written to the counter behind
  \<open>uplink\<close>, when the wrapped call returns a nil error, and change no other counter; when
  it returns an error the store is unchanged.
\<close>

theorem statsPacketConn_adds_on_success_only:
  assumes "statsPacketConn_ReadFrom c (n, a, err) h = (res1, h1)"
    and "statsPacketConn_readFrom c (p, a, err) h = (res2, h2)"
    and "statsPacketConn_WriteTo c (n, err) h = (res3, h3)"
  shows "res1 = (n, a, err) \<and> res2 = (p, a, err) \<and> res3 = (n, err)
       \<and> (err = None \<longrightarrow>
            atomic_LoadUint64 h1 (spc_downlink c) = atomic_LoadUint64 h (spc_downlink c) + word_of_int n
          \<and> (\<forall>q. q \<noteq> spc_downlink c \<longrightarrow> atomic_LoadUint64 h1 q = atomic_LoadUint64 h q)
          \<and> atomic_LoadUint64 h2 (spc_downlink c) = atomic_LoadUint64 h (spc_downlink c) + of_nat (length p)
          \<and> (\<forall>q. q \<noteq> spc_downlink c \<longrightarrow> atomic_LoadUint64 h2 q = atomic_LoadUint64 h q)
          \<and> atomic_LoadUint64 h3 (spc_uplink c) = atomic_LoadUint64 h (spc_uplink c) + word_of_int n
          \<and> (\<forall>q. q \<noteq> spc_uplink c \<longrightarrow> atomic_LoadUint64 h3 q = atomic_LoadUint64 h q))
       \<and> (err \<noteq> None \<longrightarrow> h1 = h \<and> h2 = h \<and> h3 = h)
       \<and> (\<forall>r. other_fields (h1 r) = other_fields (h r) \<and> other_fields (h2 r) = other_fields (h r)
              \<and> other_fields (h3 r) = other_fields (h r))"
proof -
  have 1: "res1 = (n, a, err)"
    "h1 = (if err = None then snd (atomic_AddUint64 h (spc_downlink c) (word_of_int n)) else h)"
    using assms(1) by (auto simp: statsPacketConn_ReadFrom_def split: if_splits)
  have 2: "res2 = (p, a, err)"
    "h2 = (if err = None then snd (atomic_AddUint64 h (spc_downlink c) (of_nat (length p))) else h)"
    using assms(2) by (auto simp: statsPacketConn_readFrom_def split: if_splits)
  have 3: "res3 = (n, err)"
    "h3 = (if err = None then snd (atomic_AddUint64 h (spc_uplink c) (word_of_int n)) else h)"
    using assms(3) by (auto simp: statsPacketConn_WriteTo_def split: if_splits)
  show ?thesis
    by (simp add: 1 2 3 load_add other_fields_add)
qed

theorem statsPacketConn_adds_on_success_only_witness:
  "atomic_LoadUint64 (snd (statsPacketConn_ReadFrom pc_one (512, None, None) h_busy)) (0, F_downlink) = 2560
   \<and> atomic_LoadUint64 (snd (statsPacketConn_WriteTo pc_one (512, None) h_busy)) (0, F_uplink) = 4608
   \<and> snd (statsPacketConn_ReadFrom pc_one (0, None, Some ''closed'') h_busy) = h_busy
   \<and> snd (statsPacketConn_WriteTo pc_one (0, Some ''closed'') h_busy) = h_busy"
proof -
  obtain res1 h1 where 1: "statsPacketConn_ReadFrom pc_one (512, None, None) h_busy = (res1, h1)"
    by (cases "statsPacketConn_ReadFrom pc_one (512, None, None) h_busy")
  obtain res2 h2 where 2: "statsPacketConn_readFrom pc_one ([], None, None) h_busy = (res2, h2)"
    by (cases "statsPacketConn_readFrom pc_one ([], None, None) h_busy")
  obtain res3 h3 where 3: "statsPacketConn_WriteTo pc_one (512, None) h_busy = (res3, h3)"
    by (cases "statsPacketConn_WriteTo pc_one (512, None) h_busy")
  obtain res4 h4 where 4: "statsPacketConn_ReadFrom pc_one (0, None, Some ''closed'') h_busy = (res4, h4)"
    by (cases "statsPacketConn_ReadFrom pc_one (0, None, Some ''closed'') h_busy")
  obtain res5 h5 where 5: "statsPacketConn_readFrom pc_one ([], None, Some ''closed'') h_busy = (res5, h5)"
    by (cases "statsPacketConn_readFrom pc_one ([], None, Some ''closed'') h_busy")
  obtain res6 h6 where 6: "statsPacketConn_WriteTo pc_one (0, Some ''closed'') h_busy = (res6, h6)"
    by (cases "statsPacketConn_WriteTo pc_one (0, Some ''closed'') h_busy")
  have up: "spc_uplink pc_one = (0, F_uplink)" and down: "spc_downlink pc_one = (0, F_downlink)"
    by (simp_all add: pc_one_def)
  note ok = statsPacketConn_adds_on_success_only [OF 1 2 3]
  note failed = statsPacketConn_adds_on_success_only [OF 4 5 6]
  have v: "atomic_LoadUint64 h_busy (0, F_uplink) = 4096"
    "atomic_LoadUint64 h_busy (0, F_downlink) = 2048"
    by (simp_all add: atomic_LoadUint64_def h_busy_def)
  have a: "atomic_LoadUint64 h1 (0, F_downlink) = 2560" using ok v by (simp add: down)
  have b: "atomic_LoadUint64 h3 (0, F_uplink) = 4608" using ok v by (simp add: up)
  have c: "h4 = h_busy" "h6 = h_busy" using failed by simp_all
  show ?thesis unfolding 1 3 4 6 using a b c by simp
qed

subsection \<open>The totals along a sequence of operations\<close>

text \<open>
  Claim C2, as stated, fails: \<open>ResetAppTraffics\<close> stores zero in both totals. The entry of
  UID 10042 has a live TCP flow in \<open>h_busy\<close>, so it stays in the map, and its total uplink
  goes from 10000 to 0.
\<close>

theorem totals_reset_counterexample:
  "appStats t_one 10042 = Some 0
   \<and> appStats (fst (run_ops [Op_ResetAppTraffics [10042]] (t_one, h_busy))) 10042 = Some 0
   \<and> unat (uplinkTotal (h_busy 0)) = 10000
   \<and> unat (uplinkTotal (snd (run_ops [Op_ResetAppTraffics [10042]] (t_one, h_busy)) 0)) = 0"
  by (simp add: ResetAppTraffics_def reset_body_def atomic_StoreUint64_def t_one_def h_busy_def)

text \<open>
  Claim C2, amended. Along every sequence of reads and writes through the wrappers and of
  calls to \<open>ReadAppTraffics\<close>, with no \<open>ResetAppTraffics\<close>, the two totals of an object
  never decrease, provided each total has room for its window at every snapshot (the
  64-bit add wraps around otherwise).
\<close>

theorem totals_never_decrease_without_reset:
  assumes "ops_ok r ops (t, h)" and "run_ops ops (t, h) = (t', h')"
  shows "unat (uplinkTotal (h r)) \<le> unat (uplinkTotal (h' r))
       \<and> unat (downlinkTotal (h r)) \<le> unat (downlinkTotal (h' r))"
  using assms
proof (induction ops arbitrary: t h)
  case Nil
  then show ?case by simp
next
  case (Cons x xs)
  obtain t1 h1 where step: "apply_op x (t, h) = (t1, h1)" by (cases "apply_op x (t, h)")
  from Cons.prems have ok: "op_ok r x (t, h)" and rest: "ops_ok r xs (t1, h1)"
    and run: "run_ops xs (t1, h1) = (t', h')"
    by (simp_all add: step)
  from apply_op_total_mono [OF ok step] Cons.IH [OF rest run]
  show ?case by linarith
qed

theorem totals_never_decrease_without_reset_witness:
  "ops_ok 0 [Op_Read c_one 100 None, Op_ReadAppTraffics [10042]] (t_one, h_busy)
   \<and> unat (uplinkTotal (h_busy 0))
       \<le> unat (uplinkTotal (snd (run_ops [Op_Read c_one 100 None, Op_ReadAppTraffics [10042]]
                                   (t_one, h_busy)) 0))"
proof -
  have ok: "ops_ok 0 [Op_Read c_one 100 None, Op_ReadAppTraffics [10042]] (t_one, h_busy)"
    by (simp add: c_one_def window_ptrs_def statsConn_Read_def atomic_AddUint64_def
        atomic_LoadUint64_def atomic_StoreUint64_def total_fits_def h_busy_def)
  obtain t' h' where run: "run_ops [Op_Read c_one 100 None, Op_ReadAppTraffics [10042]]
      (t_one, h_busy) = (t', h')"
    by (cases "run_ops [Op_Read c_one 100 None, Op_ReadAppTraffics [10042]] (t_one, h_busy)")
  from totals_never_decrease_without_reset [OF ok run]
  have "unat (uplinkTotal (h_busy 0)) \<le> unat (uplinkTotal (h' 0))" by simp
  then show ?thesis unfolding run using ok by simp
qed

section \<open>Properties of the flow handlers\<close>

subsection \<open>Auxiliary facts\<close>


lemma resolve_uid_lines:
  "resolve_uid t e th fmts inb = (uid, self, inb', lines) \<Longrightarrow>
   filter is_DispatchLink lines = [] \<and> filter is_DialUDP lines = []"
  by (auto simp: resolve_uid_def Let_def split: if_splits prod.splits)








lemma delete_stored_lock:
  "tbl key = None \<Longrightarrow> natTable_Delete (tbl(key \<mapsto> x)) key = tbl"
  by (auto simp: natTable_Delete_def fun_eq_iff)

lemma NewPacket_start_without_entry:
  assumes "udpTable (bridge w) (NetAddr source) = None"
    and "udpTable (bridge w) (NetAddr source @ ''-lock'') = None"
  shows "\<exists>d ctx lines. NewPacket_start w e source destination data wr =
           (Dialing d, Broadcast (fresh_cond w) # lines @ [DialUDP ctx destination],
            w\<lparr>fresh_cond := Suc (fresh_cond w)\<rparr>)
         \<and> filter is_DialUDP lines = []"
proof -
  have s: "sendTo w (NetAddr source) data destination wr = Inr (False, [], w)"
    using assms(1) by (simp add: sendTo_def natTable_Get_def)
  have l: "natTable_GetOrCreateLock (udpTable (bridge w)) (NetAddr source @ ''-lock'') (fresh_cond w)
      = Inr ((fresh_cond w, False),
             (udpTable (bridge w))(NetAddr source @ ''-lock'' \<mapsto> Item_Cond (fresh_cond w)))"
    using assms(2) by (simp add: natTable_GetOrCreateLock_def)
  have same_t: "(bridge w)\<lparr>udpTable := udpTable (bridge w)\<rparr> = bridge w" by simp
  obtain uid self inb lines where
    r: "resolve_uid (bridge w) e 1000 (''[%s] %s ==> %s'', ''[%s][%s (%d/%s)] %s ==> %s'')
             \<lparr>Source = source,
              Tag = (if Address_String destination = router (bridge w) then ''dns-in'' else ''socks''),
              Inbound_Uid = 0, AppStatus = []\<rparr> = (uid, self, inb, lines)"
    by (metis prod_cases4)
  have "NewPacket_start w e source destination data wr =
           (Dialing \<lparr>d_isDns = (Address_String destination = router (bridge w)),
                     d_uid = uid, d_self = self\<rparr>,
            Broadcast (fresh_cond w) # lines @
              [DialUDP \<lparr>ctx_Inbound = inb,
                        ctx_Content = sniffing_content (bridge w)
                          (Address_String destination = router (bridge w)) [''quic'']\<rparr> destination],
            w\<lparr>fresh_cond := Suc (fresh_cond w)\<rparr>)"
    using r
    by (cases "Address_String destination = router (bridge w)")
       (simp_all add: NewPacket_start_def s l Let_def delete_stored_lock [of "udpTable (bridge w)" "NetAddr source @ ''-lock''", OF assms(2)] same_t)
  then show ?thesis using resolve_uid_lines [OF r] by blast
qed

text \<open>
  \<open>GetOrCreateLock\<close> alone does what a barrier needs: the caller that stores the
  condition variable gets \<open>loaded = false\<close>, a later caller gets the stored one with
  \<open>loaded = true\<close>, and after \<open>Delete\<close> the next caller stores a new one.
\<close>

lemma GetOrCreateLock_loaded_until_Delete:
  assumes "tbl key = None"
  shows "natTable_GetOrCreateLock tbl key c1 = Inr ((c1, False), tbl(key \<mapsto> Item_Cond c1))"
    and "natTable_GetOrCreateLock (tbl(key \<mapsto> Item_Cond c1)) key c2
           = Inr ((c1, True), tbl(key \<mapsto> Item_Cond c1))"
    and "natTable_GetOrCreateLock (natTable_Delete (tbl(key \<mapsto> Item_Cond c1)) key) key c2
           = Inr ((c2, False), tbl(key \<mapsto> Item_Cond c2))"
  using assms by (simp_all add: natTable_GetOrCreateLock_def natTable_Delete_def)

text \<open>When the dial fails the handler only logs, whatever the state and the flow.\<close>

lemma NewPacket_after_dial_failed:
  "NewPacket_after_dial w e source destination data d (c, Some msg) wr reads =
     (Returned, [Errorf ''[UDP] dial failed: %s'' msg], w)"
  by (simp add: NewPacket_after_dial_def)

lemma w_one_table: "udpTable (bridge w_one) k = None"
  by (simp add: w_one_def t_one_def)

lemma w_dialing_eq: "w_dialing = w_one\<lparr>fresh_cond := 1\<rparr>"
  using NewPacket_start_without_entry [of w_one src_app e_app dst_web "[1, 2, 3]" "(3, None)"]
  by (auto simp: w_dialing_def w_one_table) (simp add: w_one_def)

lemma w_one_start:
  "NewPacket_start w_one e_app src_app dst d (n, None) =
     (Dialing \<lparr>d_isDns = (Address_String dst = ''1.2.3.4''), d_uid = 10077, d_self = False\<rparr>,
      [Broadcast 0,
       DialUDP \<lparr>ctx_Inbound = \<lparr>Source = src_app,
                   Tag = (if Address_String dst = ''1.2.3.4'' then ''dns-in'' else ''socks''),
                   Inbound_Uid = 10077, AppStatus = [''background'']\<rparr>,
                ctx_Content = sniffing_content (bridge w_one) (Address_String dst = ''1.2.3.4'') [''quic'']\<rparr> dst],
      w_one\<lparr>fresh_cond := 1\<rparr>)"
  by (simp add: NewPacket_start_def sendTo_def natTable_Get_def natTable_GetOrCreateLock_def
      natTable_Delete_def w_one_def t_one_def e_app_def src_app_def resolve_uid_def Let_def
      appStatusBackground_def)

subsection \<open>DNS flows\<close>



subsection \<open>The creation of the upstream association\<close>

text \<open>
  Claim C4, on the schedule that refutes it. Two calls of \<open>NewPacket\<close> come from the
  endpoint \<open>10.0.0.2:6000\<close>, and the second starts when the first is in \<open>dialUDP\<close>. The
  first has found no connection, stored the lock, deleted it and broadcast; so the second
  finds no connection and no lock either, gets \<open>loaded = false\<close> and dials too: two
  dials, while the NAT table never had an entry for the endpoint, let alone a deleted one.
\<close>

theorem two_callers_both_dial:
  "udpTable (bridge w_one) (NetAddr src_app) = None
   \<and> is_Dialing (fst (NewPacket_start w_one e_app src_app dst_web [1, 2, 3] (3, None)))
   \<and> w_dialing = snd (snd (NewPacket_start w_one e_app src_app dst_web [1, 2, 3] (3, None)))
   \<and> udpTable (bridge w_dialing) (NetAddr src_app) = None
   \<and> is_Dialing (fst (NewPacket_start w_dialing e_app src_app dst_web [4, 5] (2, None)))
   \<and> udpTable (bridge (snd (snd (NewPacket_start w_dialing e_app src_app dst_web [4, 5] (2, None)))))
        (NetAddr src_app) = None
   \<and> length (filter is_DialUDP
        (fst (snd (NewPacket_start w_one e_app src_app dst_web [1, 2, 3] (3, None)))
         @ fst (snd (NewPacket_start w_dialing e_app src_app dst_web [4, 5] (2, None))))) = 2"
proof -
  have t1: "udpTable (bridge w_dialing) k = None" for k
    by (simp add: w_dialing_eq w_one_table)
  from NewPacket_start_without_entry [of w_one src_app e_app dst_web "[1, 2, 3]" "(3, None)"]
  obtain d1 ctx1 lines1 where
    a: "NewPacket_start w_one e_app src_app dst_web [1, 2, 3] (3, None) =
           (Dialing d1, Broadcast (fresh_cond w_one) # lines1 @ [DialUDP ctx1 dst_web],
            w_one\<lparr>fresh_cond := Suc (fresh_cond w_one)\<rparr>)"
    and la: "filter is_DialUDP lines1 = []"
    by (auto simp: w_one_table)
  from NewPacket_start_without_entry [of w_dialing src_app e_app dst_web "[4, 5]" "(2, None)"]
  obtain d2 ctx2 lines2 where
    b: "NewPacket_start w_dialing e_app src_app dst_web [4, 5] (2, None) =
           (Dialing d2, Broadcast (fresh_cond w_dialing) # lines2 @ [DialUDP ctx2 dst_web],
            w_dialing\<lparr>fresh_cond := Suc (fresh_cond w_dialing)\<rparr>)"
    and lb: "filter is_DialUDP lines2 = []"
    by (auto simp: t1)
  show ?thesis
    unfolding a b using la lb by (simp add: w_one_table t1 w_dialing_def a)
qed

subsection \<open>A rejected flow\<close>

text \<open>
  Claim C8, at the input that refutes it. When \<open>dialUDP\<close> fails, \<open>NewPacket\<close> logs the
  error and returns: the closer of the TUN side is not closed, whereas it is closed when
  the read loop ends, and whereas \<open>NewConnection\<close> logs the error and closes the
  connection, the reader and the writer when \<open>DispatchLink\<close> fails.
\<close>

theorem NewPacket_dial_failure_leaves_closer_open:
  "fst (NewPacket w_one e_app src_app dst_web [1, 2, 3] (3, None) (9, Some ''refused'') []) = Returned
   \<and> Errorf ''[UDP] dial failed: %s'' ''refused''
        \<in> set (fst (snd (NewPacket w_one e_app src_app dst_web [1, 2, 3] (3, None) (9, Some ''refused'') [])))
   \<and> Closed C_closer
        \<notin> set (fst (snd (NewPacket w_one e_app src_app dst_web [1, 2, 3] (3, None) (9, Some ''refused'') [])))
   \<and> Closed C_closer
        \<in> set (fst (snd (NewPacket w_one e_app src_app dst_web [1, 2, 3] (3, None) (9, None)
                            [(([], None, Some ''timeout''), None)])))
   \<and> {Errorf ''[TCP] dispatchLink failed: %s'' ''rejected'',
        Closed (C_streamConn (StatsConn (statsConn 5 (1, F_uplink) (1, F_downlink)))),
        Closed C_pipeReader,
        Closed (C_connWriter (StatsConn (statsConn 5 (1, F_uplink) (1, F_downlink))))}
        \<subseteq> set (fst (NewConnection w_one e_app src_app dst_web 5 (Some ''rejected'') []))"
proof -
  have failed: "NewPacket w_one e_app src_app dst_web [1, 2, 3] (3, None) (9, Some ''refused'') [] =
      (Returned,
       [Broadcast 0,
        DialUDP \<lparr>ctx_Inbound = \<lparr>Source = src_app, Tag = ''socks'',
                   Inbound_Uid = 10077, AppStatus = [''background'']\<rparr>,
                 ctx_Content = sniffing_content (bridge w_one) False [''quic'']\<rparr> dst_web,
        Errorf ''[UDP] dial failed: %s'' ''refused''],
       w_one\<lparr>fresh_cond := 1\<rparr>)"
    by (simp add: NewPacket_def w_one_start NewPacket_after_dial_def dst_web_def)
  have start: "NewPacket_start w_one e_app src_app dst_web [1, 2, 3] (3, None) =
      (Dialing \<lparr>d_isDns = False, d_uid = 10077, d_self = False\<rparr>,
       [Broadcast 0,
        DialUDP \<lparr>ctx_Inbound = \<lparr>Source = src_app, Tag = ''socks'',
                   Inbound_Uid = 10077, AppStatus = [''background'']\<rparr>,
                 ctx_Content = sniffing_content (bridge w_one) False [''quic'']\<rparr> dst_web],
       w_one\<lparr>fresh_cond := 1\<rparr>)"
    by (simp add: w_one_start dst_web_def)
  have after: "Closed C_closer
        \<in> set (fst (snd (NewPacket_after_dial (w_one\<lparr>fresh_cond := 1\<rparr>) e_app src_app dst_web
             [1, 2, 3] \<lparr>d_isDns = False, d_uid = 10077, d_self = False\<rparr> (9, None) (3, None)
             [(([], None, Some ''timeout''), None)])))"
    by (simp add: NewPacket_after_dial_def src_app_def
        w_one_def t_one_def attach_def sendTo_def natTable_Get_def natTable_Set_def
        statsPacketConn_WriteTo_def statsPacketConn_readFrom_def closeIgnore_def Let_def)
  have ended: "Closed C_closer
        \<in> set (fst (snd (NewPacket w_one e_app src_app dst_web [1, 2, 3] (3, None) (9, None)
                            [(([], None, Some ''timeout''), None)])))"
    unfolding NewPacket_def start using after by (simp add: split_beta)
  have tcp: "{Errorf ''[TCP] dispatchLink failed: %s'' ''rejected'',
        Closed (C_streamConn (StatsConn (statsConn 5 (1, F_uplink) (1, F_downlink)))),
        Closed C_pipeReader,
        Closed (C_connWriter (StatsConn (statsConn 5 (1, F_uplink) (1, F_downlink))))}
        \<subseteq> set (fst (NewConnection w_one e_app src_app dst_web 5 (Some ''rejected'') []))"
    by (simp add: NewConnection_def w_one_def t_one_def e_app_def dst_web_def resolve_uid_def
        attach_def closeIgnore_def Let_def)
  show ?thesis
    unfolding failed using ended tcp by simp
qed

end
